theory Spec2Isabelle
  imports Complex_Main "HOL-Library.While_Combinator"
begin

section \<open>Python values used by the grammar and parser classes\<close>

text \<open>
  The classes modelled here live in \<^verbatim>\<open>morphological-patterns/operations.qmd\<close>
  (\<^verbatim>\<open>Rule\<close>, \<^verbatim>\<open>ContextFreeGrammar\<close>, the Earley classes) and in
  \<^verbatim>\<open>morphological-patterns/cky-parsing.qmd\<close> (the CKY chart, the parser base class,
  the probabilistic grammar and its CKY parser).

  Exceptions are values: a method that can raise returns \<open>error + 'a\<close>, with \<open>Inl\<close>
  for the exception.
\<close>

datatype error =
    ValueError string
  | IndexError
  | AttributeError string
  | RuntimeError string
  | NotImplementedError
  | StopIteration

text \<open>
  The message of the \<^verbatim>\<open>AttributeError\<close> Python raises when a method is called that the
  object's class does not define.
\<close>

definition no_attribute :: "string \<Rightarrow> string \<Rightarrow> string" where
  "no_attribute cls name =
     [CHR 0x27] @ cls @ [CHR 0x27] @ '' object has no attribute '' @ [CHR 0x27] @ name
       @ [CHR 0x27]"

text \<open>
  \<^verbatim>\<open>xs[i]\<close> on a Python list: a negative index counts from the end and an index
  outside \<open>-len .. len-1\<close> raises \<^verbatim>\<open>IndexError\<close>.
\<close>

definition py_norm :: "nat \<Rightarrow> int \<Rightarrow> int" where
  "py_norm n i = (if i < 0 then int n + i else i)"

definition py_index :: "'a list \<Rightarrow> int \<Rightarrow> error + 'a" where
  "py_index xs i =
     (let j = py_norm (length xs) i
      in if 0 \<le> j \<and> j < int (length xs) then Inr (xs ! nat j) else Inl IndexError)"

text \<open>\<^verbatim>\<open>xs[i] = v\<close> on a Python list, returning the updated list.\<close>

definition py_store :: "'a list \<Rightarrow> int \<Rightarrow> 'a \<Rightarrow> error + 'a list" where
  "py_store xs i v =
     (let j = py_norm (length xs) i
      in if 0 \<le> j \<and> j < int (length xs) then Inr (xs[nat j := v]) else Inl IndexError)"

text \<open>
  A Python \<^verbatim>\<open>set\<close> that the code iterates over is a duplicate-free list in insertion
  order; \<^verbatim>\<open>s.add(x)\<close> appends \<open>x\<close> unless an equal element is there already. Python
  leaves the iteration order of a set unspecified; no theorem below depends on the order
  chosen here.
\<close>

definition set_add :: "'a \<Rightarrow> 'a list \<Rightarrow> 'a list" where
  "set_add x xs = (if x \<in> set xs then xs else xs @ [x])"

section \<open>Rules and grammars\<close>

text \<open>
  \<^verbatim>\<open>class Rule\<close>: \<^verbatim>\<open>__eq__\<close> and \<^verbatim>\<open>__hash__\<close> compare \<^verbatim>\<open>(left_side, right_side)\<close>.
  \<^verbatim>\<open>class ProbabilisticRule(Rule)\<close> adds \<^verbatim>\<open>logprob\<close> and inherits the comparison.
\<close>

record Rule =
  left_side :: string
  right_side :: "string list"

text \<open>
  Both grammar classes hold the same four attributes; \<open>'r\<close> is the rule class. The
  \<^verbatim>\<open>rules\<close> set is iterated by the parsers, so it is a list.
\<close>

record 'r Grammar =
  alphabet :: "string set"
  variables :: "string set"
  rules :: "'r list"
  start_variable :: string

type_synonym ContextFreeGrammar = "Rule Grammar"

text \<open>\<^verbatim>\<open>ContextFreeGrammar._validate_variables\<close>.\<close>

definition validate_variables :: "'r Grammar \<Rightarrow> error + unit" where
  "validate_variables g =
     (if alphabet g \<inter> variables g \<noteq> {}
      then Inl (ValueError ''alphabet and variables must not share elements'')
      else if start_variable g \<notin> variables g
      then Inl (ValueError ''start variable must be in set of variables'')
      else Inr ())"

text \<open>\<^verbatim>\<open>ContextFreeGrammar._validate_rules\<close> is \<^verbatim>\<open>pass\<close>.\<close>

definition validate_rules :: "ContextFreeGrammar \<Rightarrow> error + unit" where
  "validate_rules g = Inr ()"

text \<open>
  \<^verbatim>\<open>ContextFreeGrammar.__init__\<close>: store the four arguments, validate, and only then
  build the parser. The grammar object exists only when both validations passed.
\<close>

definition ContextFreeGrammar_init ::
  "string set \<Rightarrow> string set \<Rightarrow> Rule list \<Rightarrow> string \<Rightarrow> error + ContextFreeGrammar" where
  "ContextFreeGrammar_init a v r s =
     (let g = \<lparr>alphabet = a, variables = v, rules = r, start_variable = s\<rparr>
      in case validate_variables g of
           Inl e \<Rightarrow> Inl e
         | Inr _ \<Rightarrow> (case validate_rules g of Inl e \<Rightarrow> Inl e | Inr _ \<Rightarrow> Inr g))"

text \<open>\<^verbatim>\<open>ContextFreeGrammar.rules(left_side)\<close> with a left side given.\<close>

definition rules_for :: "'b Rule_scheme Grammar \<Rightarrow> string \<Rightarrow> 'b Rule_scheme list" where
  "rules_for g A = filter (\<lambda>r. left_side r = A) (rules g)"

section \<open>The parser's entry point\<close>

text \<open>
  \<^verbatim>\<open>ContextFreeGrammarParser.__call__(string, mode)\<close>. \<^verbatim>\<open>self._recognize\<close> and
  \<^verbatim>\<open>self._parse\<close> are the subclass's methods, so they are arguments here. The two
  modes return values of different shapes.
\<close>

datatype ('b, 'p) parser_result = Recognized 'b | Parses 'p

definition mode_message :: string where
  "mode_message =
     ''mode must be '' @ [CHR 0x22] @ ''parse'' @ [CHR 0x22] @ '' or ''
       @ [CHR 0x22] @ ''recognize'' @ [CHR 0x22]"

definition ContextFreeGrammarParser_call ::
  "('s \<Rightarrow> error + 'b) \<Rightarrow> ('s \<Rightarrow> error + 'p) \<Rightarrow> 's \<Rightarrow> string
     \<Rightarrow> error + ('b, 'p) parser_result" where
  "ContextFreeGrammarParser_call recognize parse string mode =
     (if mode = ''recognize'' then map_sum id Recognized (recognize string)
      else if mode = ''parse'' then map_sum id Parses (parse string)
      else Inl (ValueError mode_message))"

text \<open>
  \<^verbatim>\<open>CKYParser.__call__\<close> of the probabilistic parser (cky-parsing.qmd, 869-875), a class
  of its own with the same three branches.
\<close>

definition CKYParser_call ::
  "('s \<Rightarrow> error + 'b) \<Rightarrow> ('s \<Rightarrow> error + 'p) \<Rightarrow> 's \<Rightarrow> string
     \<Rightarrow> error + ('b, 'p) parser_result" where
  "CKYParser_call recognize parse string mode =
     (if mode = ''recognize'' then map_sum id Recognized (recognize string)
      else if mode = ''parse'' then map_sum id Parses (parse string)
      else Inl (ValueError mode_message))"

section \<open>Charts\<close>

text \<open>
  \<^verbatim>\<open>class CKYChart\<close> (the same text in both CKY documents): a square table of
  \<open>input_size + 1\<close> rows and columns, every cell an empty set at first.
\<close>

record 'e CKYChart =
  input_size :: int
  cells :: "'e list list list"

definition CKYChart_init :: "int \<Rightarrow> 'e CKYChart" where
  "CKYChart_init n =
     \<lparr>input_size = n, cells = replicate (nat (n + 1)) (replicate (nat (n + 1)) [])\<rparr>"

definition CKYChart_validate_index :: "'e CKYChart \<Rightarrow> int \<Rightarrow> int \<Rightarrow> error + unit" where
  "CKYChart_validate_index c i j =
     (if \<not> i < j
      then Inl (ValueError ''cannot index into the lower triangle of the chart'')
      else case py_index (cells c) i of
             Inl _ \<Rightarrow> Inl (ValueError ''row index is too large'')
           | Inr row \<Rightarrow>
               (case py_index row j of
                  Inl _ \<Rightarrow> Inl (ValueError ''column index is too large'')
                | Inr _ \<Rightarrow> Inr ()))"

definition CKYChart_getitem :: "'e CKYChart \<Rightarrow> int \<times> int \<Rightarrow> error + 'e list" where
  "CKYChart_getitem c index =
     (case index of (i, j) \<Rightarrow>
        (case CKYChart_validate_index c i j of
           Inl e \<Rightarrow> Inl e
         | Inr _ \<Rightarrow>
             (case py_index (cells c) i of
                Inl e \<Rightarrow> Inl e
              | Inr row \<Rightarrow> py_index row j)))"

text \<open>\<^verbatim>\<open>CKYChart.__setitem__\<close>: \<^verbatim>\<open>self._chart[i][j] = item\<close>, with no validation.\<close>

definition CKYChart_setitem :: "'e CKYChart \<Rightarrow> int \<times> int \<Rightarrow> 'e list \<Rightarrow> error + 'e CKYChart" where
  "CKYChart_setitem c key item =
     (case key of (i, j) \<Rightarrow>
        (case py_index (cells c) i of
           Inl e \<Rightarrow> Inl e
         | Inr row \<Rightarrow>
             (case py_store row j item of
                Inl e \<Rightarrow> Inl e
              | Inr row' \<Rightarrow>
                  Inr (c\<lparr>cells := (cells c)[nat (py_norm (length (cells c)) i) := row']\<rparr>))))"

text \<open>
  \<^verbatim>\<open>class EarleyChart\<close>: \<open>input_size + 1\<close> positions, each a set of entries;
  \<^verbatim>\<open>__getitem__\<close> and \<^verbatim>\<open>__setitem__\<close> index the list directly.
\<close>

record 'e EarleyChart =
  chart_start_variable :: string
  positions :: "'e list list"

definition EarleyChart_init :: "int \<Rightarrow> string \<Rightarrow> 'e EarleyChart" where
  "EarleyChart_init n s = \<lparr>chart_start_variable = s, positions = replicate (nat (n + 1)) []\<rparr>"

definition EarleyChart_getitem :: "'e EarleyChart \<Rightarrow> int \<Rightarrow> error + 'e list" where
  "EarleyChart_getitem c index = py_index (positions c) index"

definition EarleyChart_setitem :: "'e EarleyChart \<Rightarrow> int \<Rightarrow> 'e list \<Rightarrow> error + 'e EarleyChart" where
  "EarleyChart_setitem c key item =
     (case py_store (positions c) key item of
        Inl e \<Rightarrow> Inl e
      | Inr ps \<Rightarrow> Inr (c\<lparr>positions := ps\<rparr>))"

section \<open>Loops that can raise\<close>

text \<open>
  A \<^verbatim>\<open>for\<close> loop whose body can raise: the first exception ends the loop and is the
  result.
\<close>

fun foldE :: "('a \<Rightarrow> 's \<Rightarrow> error + 's) \<Rightarrow> 'a list \<Rightarrow> 's \<Rightarrow> error + 's" where
  "foldE f [] s = Inr s"
| "foldE f (x # xs) s = (case f x s of Inl e \<Rightarrow> Inl e | Inr s' \<Rightarrow> foldE f xs s')"

section \<open>The Earley classes (operations.qmd, 721-1060)\<close>

type_synonym SpanIndices = "nat \<times> nat"

text \<open>
  \<^verbatim>\<open>class DottedRule\<close>: compared by \<^verbatim>\<open>(rule, span, dot)\<close>. Positions are lengths and
  loop counters of the parser, never negative, so they are naturals.
\<close>

record DottedRule =
  rule :: Rule
  span' :: SpanIndices
  dot :: nat

definition DottedRule_is_complete :: "DottedRule \<Rightarrow> bool" where
  "DottedRule_is_complete d = (dot d = length (right_side (rule d)))"

definition DottedRule_next_symbol :: "DottedRule \<Rightarrow> error + string" where
  "DottedRule_next_symbol d =
     (if DottedRule_is_complete d then Inl (AttributeError ''dotted rule is already complete'')
      else py_index (right_side (rule d)) (int (dot d)))"

definition DottedRule_complete :: "DottedRule \<Rightarrow> nat \<Rightarrow> DottedRule" where
  "DottedRule_complete d new_left_edge =
     \<lparr>rule = rule d, span' = (fst (span' d), new_left_edge), dot = dot d + 1\<rparr>"

type_synonym EarleyBackPointer = "string \<times> nat"

text \<open>\<^verbatim>\<open>class EarleyChartEntry\<close>: compared by \<^verbatim>\<open>(dotted_rule, backpointers)\<close>.\<close>

record EarleyChartEntry =
  dotted_rule :: DottedRule
  backpointers :: "EarleyBackPointer list"

text \<open>
  \<^verbatim>\<open>EarleyChartEntry.complete(entry, new_left_edge)\<close>: a new entry; the backpointer
  pairs the symbol passed over with \<^verbatim>\<open>self._dotted_rule.span[1]\<close>, the end of the span
  before the dot moved. The argument \<^verbatim>\<open>entry\<close> is not used by the source.
\<close>

definition EarleyChartEntry_complete ::
  "EarleyChartEntry \<Rightarrow> EarleyChartEntry \<Rightarrow> nat \<Rightarrow> error + EarleyChartEntry" where
  "EarleyChartEntry_complete self entry new_left_edge =
     (let new_dotted_rule = DottedRule_complete (dotted_rule self) new_left_edge
      in case DottedRule_next_symbol (dotted_rule self) of
           Inl e \<Rightarrow> Inl e
         | Inr next_sym \<Rightarrow>
             Inr \<lparr>dotted_rule = new_dotted_rule,
                  backpointers = backpointers self @ [(next_sym, snd (span' (dotted_rule self)))]\<rparr>)"

definition EarleyChartEntry_is_completion_of ::
  "EarleyChartEntry \<Rightarrow> EarleyChartEntry \<Rightarrow> error + bool" where
  "EarleyChartEntry_is_completion_of self other =
     (case DottedRule_next_symbol (dotted_rule other) of
        Inl e \<Rightarrow> Inl e
      | Inr next_sym \<Rightarrow> Inr (left_side (rule (dotted_rule self)) = next_sym))"

type_synonym Chart = "EarleyChartEntry EarleyChart"

text \<open>\<^verbatim>\<open>chart[position].add(e)\<close>: the set stored at the position is changed in place.\<close>

definition chart_add :: "'e EarleyChart \<Rightarrow> nat \<Rightarrow> 'e \<Rightarrow> error + 'e EarleyChart" where
  "chart_add c position e =
     (case EarleyChart_getitem c (int position) of
        Inl err \<Rightarrow> Inl err
      | Inr s \<Rightarrow> Inr (c\<lparr>positions := (positions c)[position := set_add e s]\<rparr>))"

definition predicted :: "Rule \<Rightarrow> nat \<Rightarrow> EarleyChartEntry" where
  "predicted r position =
     \<lparr>dotted_rule = \<lparr>rule = r, span' = (position, position), dot = 0\<rparr>, backpointers = []\<rparr>"

definition EarleyParser_predict ::
  "ContextFreeGrammar \<Rightarrow> Chart \<Rightarrow> EarleyChartEntry \<Rightarrow> nat \<Rightarrow> error + Chart" where
  "EarleyParser_predict g chart entry position =
     (case DottedRule_next_symbol (dotted_rule entry) of
        Inl e \<Rightarrow> Inl e
      | Inr next_sym \<Rightarrow>
          foldE (\<lambda>r c. chart_add c position (predicted r position)) (rules_for g next_sym) chart)"

text \<open>\<^verbatim>\<open>EarleyParser._scan\<close>; \<open>string\<close> is \<^verbatim>\<open>self._string\<close>.\<close>

definition EarleyParser_scan ::
  "string list \<Rightarrow> Chart \<Rightarrow> EarleyChartEntry \<Rightarrow> nat \<Rightarrow> error + Chart" where
  "EarleyParser_scan string chart entry position =
     (case py_index string (int position) of
        Inl e \<Rightarrow> Inl e
      | Inr word \<Rightarrow>
          (case DottedRule_next_symbol (dotted_rule entry) of
             Inl e \<Rightarrow> Inl e
           | Inr expected \<Rightarrow>
               if word = expected then
                 (let terminal_entry =
                        \<lparr>dotted_rule =
                           \<lparr>rule = \<lparr>left_side = expected, right_side = [word]\<rparr>,
                            span' = (position, position + 1), dot = 1\<rparr>,
                         backpointers = []\<rparr>
                  in case chart_add chart (position + 1) terminal_entry of
                       Inl e \<Rightarrow> Inl e
                     | Inr chart1 \<Rightarrow>
                         (case EarleyChartEntry_complete entry terminal_entry (position + 1) of
                            Inl e \<Rightarrow> Inl e
                          | Inr completed_entry \<Rightarrow>
                              chart_add chart1 (position + 1) completed_entry))
               else Inr chart))"

text \<open>
  \<^verbatim>\<open>EarleyParser._complete\<close>. The loop runs over the set object \<^verbatim>\<open>chart[start]\<close> itself.
  When \<open>start = position\<close> that is the set the body adds to, and Python raises
  \<^verbatim>\<open>RuntimeError\<close> at the next step of a loop over a set whose size has changed; an
  \<^verbatim>\<open>add\<close> of an element already there changes nothing and the loop goes on.
\<close>

definition complete_step ::
  "EarleyChartEntry \<Rightarrow> nat \<Rightarrow> EarleyChartEntry \<Rightarrow> Chart \<Rightarrow> error + Chart" where
  "complete_step entry position prev_entry c =
     (case span' (dotted_rule entry) of (start, end) \<Rightarrow>
        if DottedRule_is_complete (dotted_rule prev_entry) then Inr c
        else (case EarleyChartEntry_is_completion_of entry prev_entry of
                Inl e \<Rightarrow> Inl e
              | Inr False \<Rightarrow> Inr c
              | Inr True \<Rightarrow>
                  (case EarleyChartEntry_complete prev_entry entry end of
                     Inl e \<Rightarrow> Inl e
                   | Inr completed_entry \<Rightarrow>
                       (case chart_add c position completed_entry of
                          Inl e \<Rightarrow> Inl e
                        | Inr c' \<Rightarrow>
                            if start = position
                               \<and> length (positions c' ! position) \<noteq> length (positions c ! position)
                            then Inl (RuntimeError ''Set changed size during iteration'')
                            else Inr c'))))"

definition EarleyParser_complete ::
  "Chart \<Rightarrow> EarleyChartEntry \<Rightarrow> nat \<Rightarrow> error + Chart" where
  "EarleyParser_complete chart entry position =
     (case EarleyChart_getitem chart (int (fst (span' (dotted_rule entry)))) of
        Inl e \<Rightarrow> Inl e
      | Inr prev_entries \<Rightarrow> foldE (complete_step entry position) prev_entries chart)"

text \<open>
  Modelled from the spec: \<^verbatim>\<open>EarleyParser._fill_chart\<close> is left as an assignment; the
  source gives it as pseudocode only (operations.qmd, 1069-1094), which is followed here
  and agrees with the spec's section 4.4: seed position 0 with the start symbol's rules,
  then at each position apply predict, scan and complete to every entry, again and again
  until a pass adds nothing to that position. One pass runs over the entries the position
  held when the pass began. \<^verbatim>\<open>_predict\<close>, \<^verbatim>\<open>_scan\<close> and \<^verbatim>\<open>_complete\<close> are the source's
  own methods, defined above.
\<close>

definition process_entry ::
  "ContextFreeGrammar \<Rightarrow> string list \<Rightarrow> nat \<Rightarrow> EarleyChartEntry \<Rightarrow> Chart \<Rightarrow> error + Chart" where
  "process_entry g string i entry chart =
     (if \<not> DottedRule_is_complete (dotted_rule entry) then
        (case DottedRule_next_symbol (dotted_rule entry) of
           Inl e \<Rightarrow> Inl e
         | Inr next_sym \<Rightarrow>
             if next_sym \<in> variables g then EarleyParser_predict g chart entry i
             else if next_sym \<in> alphabet g \<and> i < length string
                  then EarleyParser_scan string chart entry i
             else Inr chart)
      else EarleyParser_complete chart entry i)"

definition closure_pass ::
  "ContextFreeGrammar \<Rightarrow> string list \<Rightarrow> nat \<Rightarrow> Chart \<Rightarrow> error + Chart" where
  "closure_pass g string i chart =
     (case EarleyChart_getitem chart (int i) of
        Inl e \<Rightarrow> Inl e
      | Inr entries \<Rightarrow> foldE (process_entry g string i) entries chart)"

text \<open>
  The repeat-until-no-change loop. It may in principle run forever, so not returning is
  the value \<open>None\<close>; that it always returns is lemma \<open>closure_returns\<close>.
\<close>

partial_function (option) closure ::
  "ContextFreeGrammar \<Rightarrow> string list \<Rightarrow> nat \<Rightarrow> Chart \<Rightarrow> (error + Chart) option" where
  "closure g string i chart =
     (case closure_pass g string i chart of
        Inl e \<Rightarrow> Some (Inl e)
      | Inr chart' \<Rightarrow>
          if set (positions chart' ! i) = set (positions chart ! i) then Some (Inr chart')
          else closure g string i chart')"

declare closure.simps [code]

fun fill_positions ::
  "ContextFreeGrammar \<Rightarrow> string list \<Rightarrow> nat list \<Rightarrow> Chart \<Rightarrow> (error + Chart) option" where
  "fill_positions g string [] chart = Some (Inr chart)"
| "fill_positions g string (i # is) chart =
     (case closure g string i chart of
        None \<Rightarrow> None
      | Some (Inl e) \<Rightarrow> Some (Inl e)
      | Some (Inr chart') \<Rightarrow> fill_positions g string is chart')"

definition seed_chart :: "ContextFreeGrammar \<Rightarrow> string list \<Rightarrow> error + Chart" where
  "seed_chart g string =
     foldE (\<lambda>r c. chart_add c 0 (predicted r 0)) (rules_for g (start_variable g))
       (EarleyChart_init (int (length string)) (start_variable g))"

definition EarleyParser_fill_chart ::
  "ContextFreeGrammar \<Rightarrow> string list \<Rightarrow> (error + Chart) option" where
  "EarleyParser_fill_chart g string =
     (case seed_chart g string of
        Inl e \<Rightarrow> Some (Inl e)
      | Inr chart \<Rightarrow> fill_positions g string [0..<length string + 1] chart)"

text \<open>
  \<^verbatim>\<open>EarleyParser._recognize\<close>, for a tokenised input (a list of strings).
  \<^verbatim>\<open>self._fill_chart\<close> is not a method the source defines, so it is the argument \<open>fill\<close>.
\<close>

definition is_parse_of :: "string \<Rightarrow> nat \<Rightarrow> EarleyChartEntry \<Rightarrow> bool" where
  "is_parse_of start n entry =
     (left_side (rule (dotted_rule entry)) = start
      \<and> span' (dotted_rule entry) = (0, n)
      \<and> DottedRule_is_complete (dotted_rule entry))"

definition EarleyParser_recognize ::
  "(string list \<Rightarrow> (error + Chart) option) \<Rightarrow> ContextFreeGrammar \<Rightarrow> string list
     \<Rightarrow> (error + bool) option" where
  "EarleyParser_recognize fill g string =
     (case fill string of
        None \<Rightarrow> None
      | Some (Inl e) \<Rightarrow> Some (Inl e)
      | Some (Inr chart) \<Rightarrow>
          (case EarleyChart_getitem chart (- 1) of
             Inl e \<Rightarrow> Some (Inl e)
           | Inr entries \<Rightarrow>
               Some (Inr (list_ex (is_parse_of (start_variable g) (length string)) entries))))"

datatype Tree = Tree string "Tree list"

text \<open>
  \<^verbatim>\<open>EarleyChart.parses\<close> and \<^verbatim>\<open>EarleyChart.input_size\<close>. \<^verbatim>\<open>self._construct_parses\<close> is
  not a method the source defines, so it is the argument \<open>construct_fn\<close>. The result is a
  Python set of trees.
\<close>

definition EarleyChart_input_size :: "'e EarleyChart \<Rightarrow> int" where
  "EarleyChart_input_size c = int (length (positions c)) - 1"

fun collect_parses ::
  "(EarleyChartEntry \<Rightarrow> (error + Tree) option) \<Rightarrow> EarleyChartEntry list \<Rightarrow> Tree list
     \<Rightarrow> (error + Tree list) option" where
  "collect_parses construct_fn [] parses = Some (Inr parses)"
| "collect_parses construct_fn (entry # entries) parses =
     (case construct_fn entry of
        None \<Rightarrow> None
      | Some (Inl e) \<Rightarrow> Some (Inl e)
      | Some (Inr t) \<Rightarrow> collect_parses construct_fn entries (set_add t parses))"

definition EarleyChart_parses ::
  "(Chart \<Rightarrow> EarleyChartEntry \<Rightarrow> (error + Tree) option) \<Rightarrow> Chart \<Rightarrow> (error + Tree list) option" where
  "EarleyChart_parses construct_fn c =
     (case py_index (positions c) (- 1) of
        Inl e \<Rightarrow> Some (Inl e)
      | Inr entries \<Rightarrow>
          collect_parses (construct_fn c)
            (filter (\<lambda>entry. left_side (rule (dotted_rule entry)) = chart_start_variable c
                        \<and> (int (fst (span' (dotted_rule entry))), int (snd (span' (dotted_rule entry))))
                            = (0, EarleyChart_input_size c)
                        \<and> DottedRule_is_complete (dotted_rule entry))
               entries) [])"

definition EarleyParser_parse ::
  "(string list \<Rightarrow> (error + Chart) option)
     \<Rightarrow> (Chart \<Rightarrow> EarleyChartEntry \<Rightarrow> (error + Tree) option)
     \<Rightarrow> string list \<Rightarrow> (error + Tree list) option" where
  "EarleyParser_parse fill construct_fn string =
     (case fill string of
        None \<Rightarrow> None
      | Some (Inl e) \<Rightarrow> Some (Inl e)
      | Some (Inr chart) \<Rightarrow> EarleyChart_parses construct_fn chart)"

text \<open>
  The class \<^verbatim>\<open>EarleyParser\<close> as the source has it defines no \<^verbatim>\<open>_fill_chart\<close> (the method
  is left as an assignment), so there the call \<^verbatim>\<open>self._fill_chart(string)\<close> raises
  \<^verbatim>\<open>AttributeError\<close>.
\<close>

definition EarleyParser_missing_fill_chart :: "string list \<Rightarrow> (error + Chart) option" where
  "EarleyParser_missing_fill_chart string =
     Some (Inl (AttributeError (no_attribute ''EarleyParser'' ''_fill_chart'')))"

text \<open>
  Modelled from the spec: \<^verbatim>\<open>EarleyChart._construct_parses\<close> is left as an assignment
  (the source has pseudocode for it, operations.qmd, 1098-1115). The spec (3, 4.5) expands
  a completed record into a tree whose root is the record's symbol, with one child for
  each backpointer, in order, the backpointer telling which completed entry satisfied the
  symbol. \<^verbatim>\<open>EarleyChartEntry.complete\<close> stores with the symbol the end of the waiting
  entry's span, which is where the completed entry starts; that entry ends where the next
  symbol starts, or, for the last symbol, where the expanded entry ends. So the child for
  a backpointer \<open>(symbol, position)\<close> is the first complete entry for \<open>symbol\<close> with that
  span, looked up in the chart position where it ends (the first match, as the
  pseudocode's \<^verbatim>\<open>break\<close> has it, and no child when nothing matches). The recursion need
  not end, so it is bounded by \<open>fuel\<close>, and running out of fuel is \<open>None\<close>.
\<close>

definition child_ends :: "EarleyChartEntry \<Rightarrow> nat list" where
  "child_ends entry =
     map snd (tl (backpointers entry)) @ [snd (span' (dotted_rule entry))]"

fun construct_children ::
  "(EarleyChartEntry \<Rightarrow> (error + Tree) option) \<Rightarrow> Chart \<Rightarrow> (EarleyBackPointer \<times> nat) list
     \<Rightarrow> (error + Tree list) option" where
  "construct_children rec chart [] = Some (Inr [])"
| "construct_children rec chart ((bp, child_end) # bps) =
     (case EarleyChart_getitem chart (int child_end) of
        Inl e \<Rightarrow> Some (Inl e)
      | Inr potential_children \<Rightarrow>
          (case find (\<lambda>potential_child.
                        left_side (rule (dotted_rule potential_child)) = fst bp
                        \<and> DottedRule_is_complete (dotted_rule potential_child)
                        \<and> span' (dotted_rule potential_child) = (snd bp, child_end))
                  potential_children of
             None \<Rightarrow> construct_children rec chart bps
           | Some potential_child \<Rightarrow>
               (case rec potential_child of
                  None \<Rightarrow> None
                | Some (Inl e) \<Rightarrow> Some (Inl e)
                | Some (Inr child) \<Rightarrow>
                    (case construct_children rec chart bps of
                       None \<Rightarrow> None
                     | Some (Inl e) \<Rightarrow> Some (Inl e)
                     | Some (Inr children) \<Rightarrow> Some (Inr (child # children))))))"

fun construct_parses :: "nat \<Rightarrow> Chart \<Rightarrow> EarleyChartEntry \<Rightarrow> (error + Tree) option" where
  "construct_parses 0 chart entry = None"
| "construct_parses (Suc fuel) chart entry =
     (case construct_children (construct_parses fuel chart) chart
             (zip (backpointers entry) (child_ends entry)) of
        None \<Rightarrow> None
      | Some (Inl e) \<Rightarrow> Some (Inl e)
      | Some (Inr children) \<Rightarrow>
          Some (Inr (Tree (left_side (rule (dotted_rule entry))) children)))"

section \<open>The CKY parser of the first CKY document (cky-parsing.qmd, 84-321)\<close>

type_synonym CKYBackPointer = "string \<times> (int \<times> int)"

text \<open>\<^verbatim>\<open>class CKYChartEntry\<close>: compared by \<^verbatim>\<open>(symbol, backpointers)\<close>.\<close>

record CKYChartEntry =
  symbol :: string
  cky_backpointers :: "CKYBackPointer list"

text \<open>
  \<^verbatim>\<open>CKYChart.parses\<close> and \<^verbatim>\<open>CKYChart._construct_parses\<close>. The backpointers of an entry
  are read in pairs, \<^verbatim>\<open>zip(bps[0::2], bps[1::2])\<close>; for each pair the first entry with the
  left symbol in the left span and the first with the right symbol in the right span are
  expanded (\<^verbatim>\<open>next\<close> raises \<^verbatim>\<open>StopIteration\<close> when there is none), and every pair of a left
  and a right parse gives a tree. The results are Python sets of trees. The recursion
  follows backpointers through the chart and need not end, so it is bounded by \<open>fuel\<close>,
  and running out of fuel is \<open>None\<close>.
\<close>

fun evens :: "'a list \<Rightarrow> 'a list" where
  "evens [] = []"
| "evens [x] = [x]"
| "evens (x # y # xs) = x # evens xs"

fun odds :: "'a list \<Rightarrow> 'a list" where
  "odds [] = []"
| "odds [x] = []"
| "odds (x # y # xs) = y # odds xs"

definition first_with_symbol ::
  "CKYChartEntry CKYChart \<Rightarrow> CKYBackPointer \<Rightarrow> error + CKYChartEntry" where
  "first_with_symbol chart bp =
     (case CKYChart_getitem chart (snd bp) of
        Inl e \<Rightarrow> Inl e
      | Inr cell \<Rightarrow>
          (case find (\<lambda>e. symbol e = fst bp) cell of
             None \<Rightarrow> Inl StopIteration
           | Some e \<Rightarrow> Inr e))"

fun construct_pairs ::
  "(CKYChartEntry \<Rightarrow> (error + Tree list) option) \<Rightarrow> CKYChartEntry CKYChart \<Rightarrow> string
     \<Rightarrow> (CKYBackPointer \<times> CKYBackPointer) list \<Rightarrow> Tree list \<Rightarrow> (error + Tree list) option" where
  "construct_pairs rec chart label [] parses = Some (Inr parses)"
| "construct_pairs rec chart label ((left_bp, right_bp) # pairs) parses =
     (case first_with_symbol chart left_bp of
        Inl e \<Rightarrow> Some (Inl e)
      | Inr left_entry \<Rightarrow>
          (case rec left_entry of
             None \<Rightarrow> None
           | Some (Inl e) \<Rightarrow> Some (Inl e)
           | Some (Inr left_parses) \<Rightarrow>
               (case first_with_symbol chart right_bp of
                  Inl e \<Rightarrow> Some (Inl e)
                | Inr right_entry \<Rightarrow>
                    (case rec right_entry of
                       None \<Rightarrow> None
                     | Some (Inl e) \<Rightarrow> Some (Inl e)
                     | Some (Inr right_parses) \<Rightarrow>
                         construct_pairs rec chart label pairs
                           (fold set_add
                              (concat (map (\<lambda>left_parse.
                                   map (\<lambda>right_parse. Tree label [left_parse, right_parse])
                                     right_parses) left_parses))
                              parses)))))"

fun CKYChart_construct_parses ::
  "nat \<Rightarrow> CKYChartEntry CKYChart \<Rightarrow> CKYChartEntry \<Rightarrow> (error + Tree list) option" where
  "CKYChart_construct_parses 0 chart entry = None"
| "CKYChart_construct_parses (Suc fuel) chart entry =
     (if cky_backpointers entry = [] then Some (Inr [Tree (symbol entry) []])
      else construct_pairs (CKYChart_construct_parses fuel chart) chart (symbol entry)
             (zip (evens (cky_backpointers entry)) (odds (cky_backpointers entry))) [])"

fun collect_all ::
  "(CKYChartEntry \<Rightarrow> (error + Tree list) option) \<Rightarrow> CKYChartEntry list \<Rightarrow> Tree list
     \<Rightarrow> (error + Tree list) option" where
  "collect_all rec [] parses = Some (Inr parses)"
| "collect_all rec (entry # entries) parses =
     (case rec entry of
        None \<Rightarrow> None
      | Some (Inl e) \<Rightarrow> Some (Inl e)
      | Some (Inr ts) \<Rightarrow> collect_all rec entries (fold set_add ts parses))"

definition CKYChart_parses ::
  "nat \<Rightarrow> CKYChartEntry CKYChart \<Rightarrow> (error + Tree list) option" where
  "CKYChart_parses fuel chart =
     (case CKYChart_getitem chart (0, input_size chart) of
        Inl e \<Rightarrow> Some (Inl e)
      | Inr cell \<Rightarrow> collect_all (CKYChart_construct_parses fuel chart) cell [])"

text \<open>
  \<^verbatim>\<open>CKYParser._fill_chart\<close> as the source has it: a stub that raises
  \<^verbatim>\<open>NotImplementedError\<close>, left for the students to write.
\<close>

definition CKYParser_fill_chart :: "string list \<Rightarrow> error + CKYChartEntry CKYChart" where
  "CKYParser_fill_chart string = Inl NotImplementedError"

text \<open>
  \<^verbatim>\<open>CKYParser._parse\<close> and \<^verbatim>\<open>CKYParser._recognize\<close>, for a tokenised input. The filler is
  the method \<^verbatim>\<open>self._fill_chart\<close>, which a subclass can override; it is the argument
  \<open>fill\<close>, and \<^const>\<open>CKYParser_fill_chart\<close> is the one of the source.
\<close>

definition CKYParser_parse ::
  "(string list \<Rightarrow> error + CKYChartEntry CKYChart) \<Rightarrow> nat \<Rightarrow> string list
     \<Rightarrow> (error + Tree list) option" where
  "CKYParser_parse fill fuel string =
     (case fill string of
        Inl e \<Rightarrow> Some (Inl e)
      | Inr chart \<Rightarrow> CKYChart_parses fuel chart)"

definition CKYParser_recognize ::
  "(string list \<Rightarrow> error + CKYChartEntry CKYChart) \<Rightarrow> ContextFreeGrammar \<Rightarrow> string list
     \<Rightarrow> error + bool" where
  "CKYParser_recognize fill g string =
     (case fill string of
        Inl e \<Rightarrow> Inl e
      | Inr chart \<Rightarrow>
          (case CKYChart_getitem chart (0, int (length string)) of
             Inl e \<Rightarrow> Inl e
           | Inr cell \<Rightarrow> Inr (list_ex (\<lambda>entry. symbol entry = start_variable g) cell)))"

section \<open>The probabilistic grammar (cky-parsing.qmd, 594-741)\<close>

text \<open>
  A log-probability is a Python float. Float arithmetic is not modelled: the type of floats
  is the type variable \<open>'f\<close>, and the operations the source applies to floats are the fields
  of a record, an argument of every function that computes with them. What is proved of
  the grammar and of the parser therefore holds for whatever these operations compute,
  with rounding, overflow, \<^verbatim>\<open>inf\<close> and \<^verbatim>\<open>nan\<close> as doubles have them.
\<close>

record 'f Floats =
  float_add :: "'f \<Rightarrow> 'f \<Rightarrow> 'f"
  float_zero :: 'f
  float_neg_inf :: 'f
  scipy_logsumexp :: "'f list \<Rightarrow> 'f"
  numpy_exp :: "'f \<Rightarrow> 'f"
  numpy_isclose_one :: "'f \<Rightarrow> bool"

text \<open>
  \<^const>\<open>float_add\<close> is \<^verbatim>\<open>a + b\<close>, \<^const>\<open>float_zero\<close> the literal \<^verbatim>\<open>0.0\<close>,
  \<^const>\<open>float_neg_inf\<close> is \<^verbatim>\<open>float('-inf')\<close>, \<^const>\<open>scipy_logsumexp\<close> is
  \<^verbatim>\<open>scipy.special.logsumexp\<close>, \<^const>\<open>numpy_exp\<close> is \<^verbatim>\<open>np.exp\<close> and
  \<^const>\<open>numpy_isclose_one\<close> is the call \<^verbatim>\<open>np.isclose(x, 1.0, rtol=1e-5)\<close>.
\<close>

record 'f ProbabilisticRule = Rule +
  logprob :: 'f

type_synonym 'f ProbabilisticContextFreeGrammar = "'f ProbabilisticRule Grammar"

text \<open>
  \<^verbatim>\<open>ProbabilisticContextFreeGrammar._validate_variables\<close>: the same two checks as the
  plain grammar's, written as assertions turned into \<^verbatim>\<open>ValueError\<close>.
\<close>

definition PCFG_validate_variables :: "'f ProbabilisticContextFreeGrammar \<Rightarrow> error + unit" where
  "PCFG_validate_variables g =
     (if \<not> (alphabet g \<inter> variables g = {})
      then Inl (ValueError ''alphabet and variables must not share elements'')
      else if \<not> (start_variable g \<in> variables g)
      then Inl (ValueError ''start variable must be in set of variables'')
      else Inr ())"

text \<open>
  The keys of the dictionary \<^verbatim>\<open>log_probs\<close>, in the order Python keeps them: each left
  side once, in the order of its first rule.
\<close>

definition left_sides :: "'f ProbabilisticRule list \<Rightarrow> string list" where
  "left_sides rs = rev (remdups (rev (map left_side rs)))"

text \<open>
  \<^verbatim>\<open>sum_prob = np.exp(logsumexp(lps))\<close> for the list \<open>lps\<close> that \<^verbatim>\<open>log_probs\<close> holds for
  one left side: the log-probabilities of its rules.
\<close>

definition sum_prob :: "'f Floats \<Rightarrow> 'f ProbabilisticContextFreeGrammar \<Rightarrow> string \<Rightarrow> 'f" where
  "sum_prob F g nt = numpy_exp F (scipy_logsumexp F (map logprob (rules_for g nt)))"

text \<open>
  \<^verbatim>\<open>ProbabilisticContextFreeGrammar._validate_rules\<close>. The source calls \<^verbatim>\<open>r.validate\<close> on
  each rule; what that call does is the argument \<open>validate\<close>. The message is the
  source's, with the number \<^verbatim>\<open>sum_prob\<close> left unformatted.
\<close>

definition check_distribution ::
  "'f Floats \<Rightarrow> 'f ProbabilisticContextFreeGrammar \<Rightarrow> string \<Rightarrow> unit \<Rightarrow> error + unit" where
  "check_distribution F g nt u =
     (if \<not> numpy_isclose_one F (sum_prob F g nt)
      then Inl (ValueError (''Rules for '' @ nt @ '' sum to {sum_prob}, not 1.0''))
      else Inr ())"

definition PCFG_validate_rules ::
  "'f Floats \<Rightarrow> ('f ProbabilisticRule \<Rightarrow> string set \<Rightarrow> string set \<Rightarrow> error + unit)
     \<Rightarrow> 'f ProbabilisticContextFreeGrammar \<Rightarrow> error + unit" where
  "PCFG_validate_rules F validate g =
     (case foldE (\<lambda>r u. validate r (alphabet g) (variables g)) (rules g) () of
        Inl e \<Rightarrow> Inl e
      | Inr _ \<Rightarrow> foldE (check_distribution F g) (left_sides (rules g)) ())"

definition PCFG_init ::
  "'f Floats \<Rightarrow> ('f ProbabilisticRule \<Rightarrow> string set \<Rightarrow> string set \<Rightarrow> error + unit)
     \<Rightarrow> string set \<Rightarrow> string set \<Rightarrow> 'f ProbabilisticRule list \<Rightarrow> string
     \<Rightarrow> error + 'f ProbabilisticContextFreeGrammar" where
  "PCFG_init F validate a v r s =
     (let g = \<lparr>alphabet = a, variables = v, rules = r, start_variable = s\<rparr>
      in case PCFG_validate_variables g of
           Inl e \<Rightarrow> Inl e
         | Inr _ \<Rightarrow> (case PCFG_validate_rules F validate g of Inl e \<Rightarrow> Inl e | Inr _ \<Rightarrow> Inr g))"

text \<open>
  The rule classes of the source define no \<^verbatim>\<open>validate\<close>: on a \<^verbatim>\<open>Rule\<close> or a
  \<^verbatim>\<open>ProbabilisticRule\<close> as the source has them the call raises \<^verbatim>\<open>AttributeError\<close>.
\<close>

definition Rule_validate ::
  "'f ProbabilisticRule \<Rightarrow> string set \<Rightarrow> string set \<Rightarrow> error + unit" where
  "Rule_validate r a v = Inl (AttributeError (no_attribute ''ProbabilisticRule'' ''validate''))"

text \<open>\<^verbatim>\<open>ProbabilisticContextFreeGrammar.reduce\<close>: a set of pairs.\<close>

definition reduce ::
  "'f ProbabilisticContextFreeGrammar \<Rightarrow> string list \<Rightarrow> (string \<times> 'f) list" where
  "reduce g rhs =
     remdups (map (\<lambda>r. (left_side r, logprob r)) (filter (\<lambda>r. right_side r = rhs) (rules g)))"

section \<open>The probabilistic CKY parser (cky-parsing.qmd, 765-1017)\<close>

text \<open>
  \<^verbatim>\<open>class CKYChartEntry\<close> of the probabilistic parser: the backpointers are entries, and
  \<^verbatim>\<open>__eq__\<close> and \<^verbatim>\<open>__hash__\<close> look at the symbol and the backpointers, not at the
  log-probability.
\<close>

datatype 'f PCKYChartEntry =
  PCKYChartEntry (entry_symbol: string) (entry_logprob: 'f)
    (entry_backpointers: "'f PCKYChartEntry list")

fun entry_eq :: "'f PCKYChartEntry \<Rightarrow> 'f PCKYChartEntry \<Rightarrow> bool" where
  "entry_eq (PCKYChartEntry s l bs) (PCKYChartEntry s' l' bs') =
     (s = s' \<and> list_all2 entry_eq bs bs')"

text \<open>\<^verbatim>\<open>add\<close> and \<^verbatim>\<open>remove\<close> on a set of such entries, under that equality.\<close>

definition entry_set_add ::
  "'f PCKYChartEntry \<Rightarrow> 'f PCKYChartEntry list \<Rightarrow> 'f PCKYChartEntry list" where
  "entry_set_add e cell = (if list_ex (\<lambda>e'. entry_eq e' e) cell then cell else cell @ [e])"

fun entry_set_remove ::
  "'f PCKYChartEntry \<Rightarrow> 'f PCKYChartEntry list \<Rightarrow> 'f PCKYChartEntry list" where
  "entry_set_remove e [] = []"
| "entry_set_remove e (x # xs) = (if entry_eq x e then xs else x # entry_set_remove e xs)"

text \<open>
  \<^verbatim>\<open>chart[i, j].add(...)\<close> and \<^verbatim>\<open>chart[i, j].remove(...)\<close>: \<^verbatim>\<open>__getitem__\<close> validates the
  index and hands out the cell's set, which the method then changes in place.
\<close>

definition cell_update ::
  "'e CKYChart \<Rightarrow> int \<times> int \<Rightarrow> ('e list \<Rightarrow> 'e list) \<Rightarrow> error + 'e CKYChart" where
  "cell_update c index f =
     (case CKYChart_getitem c index of
        Inl e \<Rightarrow> Inl e
      | Inr cell \<Rightarrow>
          (case index of (i, j) \<Rightarrow>
             (let i' = nat (py_norm (length (cells c)) i);
                  j' = nat (py_norm (length (cells c ! i')) j)
              in Inr (c\<lparr>cells := (cells c)[i' := (cells c ! i')[j' := f cell]]\<rparr>))))"

type_synonym 'f PChart = "'f PCKYChartEntry CKYChart"

text \<open>The base case of \<^verbatim>\<open>CKYParser._fill_chart\<close>, for one \<open>j\<close>.\<close>

definition fill_base_cell ::
  "'f Floats \<Rightarrow> 'f ProbabilisticContextFreeGrammar \<Rightarrow> string list \<Rightarrow> nat \<Rightarrow> 'f PChart
     \<Rightarrow> error + 'f PChart" where
  "fill_base_cell F g string j chart =
     (let i = j - 1
      in case py_index string (int i) of
           Inl e \<Rightarrow> Inl e
         | Inr word \<Rightarrow>
             foldE (\<lambda>(nt, lp) c.
                      cell_update c (int i, int j)
                        (entry_set_add (PCKYChartEntry nt lp [PCKYChartEntry word (float_zero F) []])))
               (reduce g [word]) chart)"

text \<open>
  The body of the innermost loop: one \<open>(parent, rule_logprob)\<close> for one pair of entries.
\<close>

definition combine ::
  "'f Floats \<Rightarrow> bool \<Rightarrow> nat \<times> nat \<Rightarrow> 'f PCKYChartEntry \<Rightarrow> 'f PCKYChartEntry \<Rightarrow> string \<times> 'f
     \<Rightarrow> 'f PChart \<Rightarrow> error + 'f PChart" where
  "combine F keep_backtraces ij left_entry right_entry pr chart =
     (case ij of (i, j) \<Rightarrow> case pr of (parent, rule_logprob) \<Rightarrow>
        (let entry_lp = float_add F (float_add F rule_logprob (entry_logprob left_entry))
                                  (entry_logprob right_entry)
         in if keep_backtraces
            then cell_update chart (int i, int j)
                   (entry_set_add (PCKYChartEntry parent entry_lp [left_entry, right_entry]))
            else (case CKYChart_getitem chart (int i, int j) of
                    Inl e \<Rightarrow> Inl e
                  | Inr cell \<Rightarrow>
                      (case filter (\<lambda>e. entry_symbol e = parent) cell of
                         [] \<Rightarrow> cell_update chart (int i, int j)
                                 (entry_set_add (PCKYChartEntry parent entry_lp []))
                       | existing # _ \<Rightarrow>
                           (let new_lp = scipy_logsumexp F [entry_logprob existing, entry_lp]
                            in case cell_update chart (int i, int j) (entry_set_remove existing) of
                                 Inl e \<Rightarrow> Inl e
                               | Inr chart1 \<Rightarrow>
                                   cell_update chart1 (int i, int j)
                                     (entry_set_add (PCKYChartEntry parent new_lp [])))))))"

text \<open>The loops over the entries of \<open>chart[i, k]\<close> and \<open>chart[k, j]\<close>, for one split \<open>k\<close>.\<close>

definition fill_split ::
  "'f Floats \<Rightarrow> bool \<Rightarrow> 'f ProbabilisticContextFreeGrammar \<Rightarrow> nat \<Rightarrow> nat \<Rightarrow> nat \<Rightarrow> 'f PChart
     \<Rightarrow> error + 'f PChart" where
  "fill_split F keep_backtraces g i j k chart =
     (case CKYChart_getitem chart (int i, int k) of
        Inl e \<Rightarrow> Inl e
      | Inr lefts \<Rightarrow>
          foldE (\<lambda>left_entry c.
              case CKYChart_getitem c (int k, int j) of
                Inl e \<Rightarrow> Inl e
              | Inr rights \<Rightarrow>
                  foldE (\<lambda>right_entry.
                      foldE (combine F keep_backtraces (i, j) left_entry right_entry)
                        (reduce g [entry_symbol left_entry, entry_symbol right_entry]))
                    rights c)
            lefts chart)"

text \<open>The loop over \<open>k\<close> for one \<open>i\<close>, and the loop over \<open>i\<close> for one length.\<close>

definition fill_span ::
  "'f Floats \<Rightarrow> bool \<Rightarrow> 'f ProbabilisticContextFreeGrammar \<Rightarrow> nat \<Rightarrow> nat \<Rightarrow> 'f PChart
     \<Rightarrow> error + 'f PChart" where
  "fill_span F keep_backtraces g len i chart =
     (let j = i + len in foldE (fill_split F keep_backtraces g i j) [i + 1..<j] chart)"

definition fill_length ::
  "'f Floats \<Rightarrow> bool \<Rightarrow> 'f ProbabilisticContextFreeGrammar \<Rightarrow> nat \<Rightarrow> nat \<Rightarrow> 'f PChart
     \<Rightarrow> error + 'f PChart" where
  "fill_length F keep_backtraces g n len chart =
     foldE (fill_span F keep_backtraces g len) [0..<n - len + 1] chart"

definition PCKYParser_fill_chart ::
  "'f Floats \<Rightarrow> 'f ProbabilisticContextFreeGrammar \<Rightarrow> string list \<Rightarrow> bool
     \<Rightarrow> error + 'f PChart" where
  "PCKYParser_fill_chart F g string keep_backtraces =
     (let n = length string;
          chart = CKYChart_init (int n)
      in case foldE (fill_base_cell F g string) [1..<n + 1] chart of
           Inl e \<Rightarrow> Inl e
         | Inr chart1 \<Rightarrow> foldE (fill_length F keep_backtraces g n) [2..<n + 1] chart1)"

fun build_tree :: "'f PCKYChartEntry \<Rightarrow> Tree" where
  "build_tree (PCKYChartEntry s l bs) = Tree s (map build_tree bs)"

definition PCKYParser_parse ::
  "'f Floats \<Rightarrow> 'f ProbabilisticContextFreeGrammar \<Rightarrow> string list
     \<Rightarrow> error + (Tree \<times> 'f) list" where
  "PCKYParser_parse F g string =
     (case PCKYParser_fill_chart F g string True of
        Inl e \<Rightarrow> Inl e
      | Inr chart \<Rightarrow>
          (case CKYChart_getitem chart (0, int (length string)) of
             Inl e \<Rightarrow> Inl e
           | Inr cell \<Rightarrow>
               Inr (map (\<lambda>entry. (build_tree entry, entry_logprob entry))
                      (filter (\<lambda>entry. entry_symbol entry = start_variable g) cell))))"

definition PCKYParser_recognize ::
  "'f Floats \<Rightarrow> 'f ProbabilisticContextFreeGrammar \<Rightarrow> string list \<Rightarrow> error + 'f" where
  "PCKYParser_recognize F g string =
     (case PCKYParser_fill_chart F g string False of
        Inl e \<Rightarrow> Inl e
      | Inr chart \<Rightarrow>
          (case CKYChart_getitem chart (0, int (length string)) of
             Inl e \<Rightarrow> Inl e
           | Inr cell \<Rightarrow>
               (let logprobs = map entry_logprob
                                 (filter (\<lambda>entry. entry_symbol entry = start_variable g) cell)
                in if logprobs \<noteq> [] then Inr (scipy_logsumexp F logprobs)
                   else Inr (float_neg_inf F))))"

section \<open>What a chart can hold\<close>

text \<open>
  The entries a parse of \<open>string\<close> with grammar \<open>g\<close> can ever create: a rule of the grammar,
  or the one-symbol rule that \<^verbatim>\<open>_scan\<close> makes for a token; a span inside the input; the dot
  inside the right side; at most one backpointer per symbol passed, each a symbol of a
  right side with a position of the input.
\<close>

definition entry_rules :: "ContextFreeGrammar \<Rightarrow> string list \<Rightarrow> Rule set" where
  "entry_rules g string =
     set (rules g) \<union> (\<lambda>w. \<lparr>left_side = w, right_side = [w]\<rparr>) ` set string"

definition rhs_symbols :: "ContextFreeGrammar \<Rightarrow> string list \<Rightarrow> string set" where
  "rhs_symbols g string = (\<Union>r \<in> entry_rules g string. set (right_side r))"

definition entry_universe :: "ContextFreeGrammar \<Rightarrow> string list \<Rightarrow> EarleyChartEntry set" where
  "entry_universe g string =
     {e. rule (dotted_rule e) \<in> entry_rules g string
       \<and> fst (span' (dotted_rule e)) \<le> length string
       \<and> snd (span' (dotted_rule e)) \<le> length string
       \<and> dot (dotted_rule e) \<le> length (right_side (rule (dotted_rule e)))
       \<and> length (backpointers e) \<le> dot (dotted_rule e)
       \<and> set (backpointers e) \<subseteq> rhs_symbols g string \<times> {..length string}}"

definition chart_within :: "ContextFreeGrammar \<Rightarrow> string list \<Rightarrow> Chart \<Rightarrow> bool" where
  "chart_within g string c =
     (length (positions c) = length string + 1
      \<and> (\<forall>k \<le> length string. set (positions c ! k) \<subseteq> entry_universe g string))"

definition chart_grows :: "Chart \<Rightarrow> Chart \<Rightarrow> bool" where
  "chart_grows c c' =
     (chart_start_variable c' = chart_start_variable c
      \<and> length (positions c') = length (positions c)
      \<and> (\<forall>k < length (positions c). set (positions c ! k) \<subseteq> set (positions c' ! k)))"

section \<open>The example of the walkthrough (operations.qmd, 1150-1169)\<close>

text \<open>\<^verbatim>\<open>Rule(left_side, *right_side)\<close>.\<close>

definition mk_rule :: "string \<Rightarrow> string list \<Rightarrow> Rule" where
  "mk_rule l r = \<lparr>left_side = l, right_side = r\<rparr>"

definition unhappiness_grammar :: ContextFreeGrammar where
  "unhappiness_grammar =
     \<lparr>alphabet = {''un'', ''happy'', ''ness''},
      variables = {''Word'', ''Adj'', ''N'', ''Prefix'', ''Suffix''},
      rules = [mk_rule ''Adj'' [''happy''], mk_rule ''Prefix'' [''un''],
               mk_rule ''Suffix'' [''ness''], mk_rule ''Adj'' [''Prefix'', ''Adj''],
               mk_rule ''N'' [''Adj'', ''Suffix''], mk_rule ''Word'' [''N'']],
      start_variable = ''Word''\<rparr>"

definition mk_entry :: "string \<Rightarrow> string list \<Rightarrow> nat \<times> nat \<Rightarrow> nat \<Rightarrow> EarleyBackPointer list \<Rightarrow> EarleyChartEntry" where
  "mk_entry l r sp d bps = \<lparr>dotted_rule = \<lparr>rule = mk_rule l r, span' = sp, dot = d\<rparr>, backpointers = bps\<rparr>"

definition unhappiness_chart :: Chart where
  "unhappiness_chart =
     \<lparr>chart_start_variable = ''Word'',
      positions =
        [[mk_entry ''Word'' [''N''] (0, 0) 0 [],
          mk_entry ''N'' [''Adj'', ''Suffix''] (0, 0) 0 [],
          mk_entry ''Adj'' [''happy''] (0, 0) 0 [],
          mk_entry ''Adj'' [''Prefix'', ''Adj''] (0, 0) 0 [],
          mk_entry ''Prefix'' [''un''] (0, 0) 0 []],
         [mk_entry ''un'' [''un''] (0, 1) 1 [],
          mk_entry ''Prefix'' [''un''] (0, 1) 1 [(''un'', 0)],
          mk_entry ''Adj'' [''Prefix'', ''Adj''] (0, 1) 1 [(''Prefix'', 0)],
          mk_entry ''Adj'' [''happy''] (1, 1) 0 [],
          mk_entry ''Adj'' [''Prefix'', ''Adj''] (1, 1) 0 [],
          mk_entry ''Prefix'' [''un''] (1, 1) 0 []],
         [mk_entry ''happy'' [''happy''] (1, 2) 1 [],
          mk_entry ''Adj'' [''happy''] (1, 2) 1 [(''happy'', 1)],
          mk_entry ''Adj'' [''Prefix'', ''Adj''] (0, 2) 2 [(''Prefix'', 0), (''Adj'', 1)],
          mk_entry ''N'' [''Adj'', ''Suffix''] (0, 2) 1 [(''Adj'', 0)],
          mk_entry ''Suffix'' [''ness''] (2, 2) 0 []],
         [mk_entry ''ness'' [''ness''] (2, 3) 1 [],
          mk_entry ''Suffix'' [''ness''] (2, 3) 1 [(''ness'', 2)],
          mk_entry ''N'' [''Adj'', ''Suffix''] (0, 3) 2 [(''Adj'', 0), (''Suffix'', 2)],
          mk_entry ''Word'' [''N''] (0, 3) 1 [(''N'', 0)]]]\<rparr>"


section \<open>Reading the probabilistic chart\<close>

text \<open>
  Auxiliary notions for the proofs about the probabilistic CKY filler: a chart of \<open>m\<close> rows
  and columns, the chart with one cell changed, the symbols of a cell, what one pass of
  the innermost loop body does to its cell, and the left sides the grammar allows over two
  sets of symbols.
\<close>

definition square :: "'e CKYChart \<Rightarrow> nat \<Rightarrow> bool" where
  "square c m = (length (cells c) = m \<and> (\<forall>row \<in> set (cells c). length row = m))"

definition upd :: "'e CKYChart \<Rightarrow> nat \<Rightarrow> nat \<Rightarrow> ('e list \<Rightarrow> 'e list) \<Rightarrow> 'e CKYChart" where
  "upd c i j f = c\<lparr>cells := (cells c)[i := (cells c ! i)[j := f (cells c ! i ! j)]]\<rparr>"

definition syms :: "'f PChart \<Rightarrow> nat \<Rightarrow> nat \<Rightarrow> string set" where
  "syms c a b = entry_symbol ` set (cells c ! a ! b)"

definition combined ::
  "'f Floats \<Rightarrow> bool \<Rightarrow> 'f PCKYChartEntry \<Rightarrow> 'f PCKYChartEntry \<Rightarrow> string \<times> 'f
     \<Rightarrow> 'f PCKYChartEntry list \<Rightarrow> 'f PCKYChartEntry list" where
  "combined F keep l r pr cell =
     (let entry_lp = float_add F (float_add F (snd pr) (entry_logprob l)) (entry_logprob r)
      in if keep then entry_set_add (PCKYChartEntry (fst pr) entry_lp [l, r]) cell
         else (case filter (\<lambda>e. entry_symbol e = fst pr) cell of
                 [] \<Rightarrow> entry_set_add (PCKYChartEntry (fst pr) entry_lp []) cell
               | existing # _ \<Rightarrow>
                   entry_set_add
                     (PCKYChartEntry (fst pr)
                        (scipy_logsumexp F [entry_logprob existing, entry_lp]) [])
                     (entry_set_remove existing cell)))"

definition parents ::
  "'f ProbabilisticContextFreeGrammar \<Rightarrow> string set \<Rightarrow> string set \<Rightarrow> string set" where
  "parents g L R = (\<Union>B \<in> L. \<Union>C \<in> R. fst ` set (reduce g [B, C]))"

definition stepped ::
  "nat \<Rightarrow> 'f PChart \<Rightarrow> 'f PChart \<Rightarrow> nat \<Rightarrow> nat \<Rightarrow> string set \<Rightarrow> bool" where
  "stepped m c c' i j S =
     (square c' m
      \<and> (\<forall>a < m. \<forall>b < m. (a, b) \<noteq> (i, j) \<longrightarrow> cells c' ! a ! b = cells c ! a ! b)
      \<and> syms c' i j = syms c i j \<union> S)"

definition sym_equiv :: "nat \<Rightarrow> 'f PChart \<Rightarrow> 'f PChart \<Rightarrow> bool" where
  "sym_equiv m c1 c2 =
     (square c1 m \<and> square c2 m \<and> (\<forall>a < m. \<forall>b < m. syms c1 a b = syms c2 a b))"

section \<open>An exact arithmetic for the examples\<close>

text \<open>
  The concrete runs below need numbers. They are computed with exact reals extended by
  \<open>-inf\<close>, one instance of the float operations; the general results are stated for
  every instance and do not depend on this one.
\<close>

datatype logp = NegInf | Fin real

fun logp_add :: "logp \<Rightarrow> logp \<Rightarrow> logp" where
  "logp_add (Fin a) (Fin b) = Fin (a + b)"
| "logp_add _ _ = NegInf"

fun exact_exp :: "logp \<Rightarrow> real" where
  "exact_exp NegInf = 0"
| "exact_exp (Fin a) = exp a"

definition logsumexp :: "logp list \<Rightarrow> logp" where
  "logsumexp lps =
     (let total = sum_list (map exact_exp lps)
      in if total = 0 then NegInf else Fin (ln total))"

fun exact_isclose_one :: "logp \<Rightarrow> bool" where
  "exact_isclose_one NegInf = False"
| "exact_isclose_one (Fin a) = (\<bar>a - 1\<bar> \<le> 1 / 10 ^ 8 + 1 / 10 ^ 5)"

definition exact :: "logp Floats" where
  "exact =
     \<lparr>float_add = logp_add, float_zero = Fin 0, float_neg_inf = NegInf,
      scipy_logsumexp = logsumexp, numpy_exp = (\<lambda>x. Fin (exact_exp x)),
      numpy_isclose_one = exact_isclose_one\<rparr>"

text \<open>\<^verbatim>\<open>ProbabilisticRule(left_side, *right_side, logprob=p)\<close>.\<close>

definition mk_prule :: "string \<Rightarrow> string list \<Rightarrow> 'f \<Rightarrow> 'f ProbabilisticRule" where
  "mk_prule l r p = \<lparr>left_side = l, right_side = r, logprob = p\<rparr>"

definition one_rule_pcfg :: "logp ProbabilisticContextFreeGrammar" where
  "one_rule_pcfg =
     \<lparr>alphabet = {''a''}, variables = {''S''}, rules = [mk_prule ''S'' [''a''] (Fin 0)],
      start_variable = ''S''\<rparr>"

definition zero_probability_pcfg :: "logp ProbabilisticContextFreeGrammar" where
  "zero_probability_pcfg =
     \<lparr>alphabet = {''a'', ''b''}, variables = {''S''},
      rules = [mk_prule ''S'' [''a''] (Fin 0), mk_prule ''S'' [''b''] NegInf],
      start_variable = ''S''\<rparr>"

subsection \<open>Growth of a chart, and the example charts of the monotonicity results\<close>

text \<open>
  \<^term>\<open>cells_grow c c'\<close>: every entry of every cell of \<open>c\<close> is still in the same cell of
  \<open>c'\<close>. \<^term>\<open>symbols_grow c c'\<close>: every symbol of every cell of \<open>c\<close> is still the symbol
  of an entry of the same cell of \<open>c'\<close>.
\<close>

definition cells_grow :: "'f PChart \<Rightarrow> 'f PChart \<Rightarrow> bool" where
  "cells_grow c c' =
     (length (cells c') = length (cells c)
      \<and> (\<forall>a < length (cells c). \<forall>b < length (cells c ! a).
            set (cells c ! a ! b) \<subseteq> set (cells c' ! a ! b)))"

definition symbols_grow :: "'f PChart \<Rightarrow> 'f PChart \<Rightarrow> bool" where
  "symbols_grow c c' =
     (length (cells c') = length (cells c)
      \<and> (\<forall>a < length (cells c). \<forall>b < length (cells c ! a).
            entry_symbol ` set (cells c ! a ! b) \<subseteq> entry_symbol ` set (cells c' ! a ! b)))"

definition ambiguous_pcfg :: "logp ProbabilisticContextFreeGrammar" where
  "ambiguous_pcfg =
     \<lparr>alphabet = {''a''}, variables = {''S''},
      rules = [mk_prule ''S'' [''S'', ''S''] (Fin (ln (1 / 2))),
               mk_prule ''S'' [''a''] (Fin (ln (1 / 2)))],
      start_variable = ''S''\<rparr>"

definition leaf_S :: "logp PCKYChartEntry" where
  "leaf_S = PCKYChartEntry ''S'' (Fin (ln (1 / 2))) [PCKYChartEntry ''a'' (Fin 0) []]"

definition ambiguous_chart ::
  "logp PCKYChartEntry list \<Rightarrow> logp PCKYChartEntry list \<Rightarrow> logp PCKYChartEntry list
     \<Rightarrow> logp PChart" where
  "ambiguous_chart c02 c13 c03 =
     \<lparr>input_size = 3,
      cells = [[[], [leaf_S], c02, c03],
               [[], [], [leaf_S], c13],
               [[], [], [], [leaf_S]],
               [[], [], [], []]]\<rparr>"

definition first_S :: "logp PCKYChartEntry" where
  "first_S = PCKYChartEntry ''S'' (Fin (5 * ln (1 / 2))) []"

definition pair_S :: "logp PCKYChartEntry" where
  "pair_S = PCKYChartEntry ''S'' (Fin (3 * ln (1 / 2))) []"

definition summed_S :: "logp PCKYChartEntry" where
  "summed_S = PCKYChartEntry ''S'' (Fin (ln (2 * exp (5 * ln (1 / 2))))) []"

definition earley_chart :: "EarleyChartEntry list \<Rightarrow> EarleyChartEntry list \<Rightarrow> Chart" where
  "earley_chart p0 p1 = \<lparr>chart_start_variable = ''Word'', positions = [p0, p1, [], []]\<rparr>"

subsection \<open>The error of a read below the diagonal\<close>

definition lower_triangle_error :: error where
  "lower_triangle_error = ValueError ''cannot index into the lower triangle of the chart''"

section \<open>Grammar construction (C7)\<close>

lemma validate_variables_error:
  "alphabet g \<inter> variables g \<noteq> {} \<or> start_variable g \<notin> variables g
     \<Longrightarrow> \<exists>msg. validate_variables g = Inl (ValueError msg)"
  by (auto simp: validate_variables_def)

lemma PCFG_validate_variables_error:
  "alphabet g \<inter> variables g \<noteq> {} \<or> start_variable g \<notin> variables g
     \<Longrightarrow> \<exists>msg. PCFG_validate_variables g = Inl (ValueError msg)"
  by (auto simp: PCFG_validate_variables_def)

text \<open>
  C7. When the alphabet and the variables share an element, or the start symbol is not a
  declared variable, both constructors raise \<^verbatim>\<open>ValueError\<close>: the plain grammar's, and the
  probabilistic grammar's whatever \<^verbatim>\<open>r.validate\<close> does and whatever the float
  operations compute (the variables are checked first). The constructor is the only place
  the check runs and it returns no grammar in that case, so no parser is handed such a
  grammar and the error cannot come up during a parse.
\<close>

theorem grammar_construction_validates:
  assumes "a \<inter> v \<noteq> {} \<or> s \<notin> v"
  shows "(\<exists>msg. ContextFreeGrammar_init a v r s = Inl (ValueError msg))
       \<and> (\<exists>msg. PCFG_init F validate a v pr s = Inl (ValueError msg))"
proof
  from assms validate_variables_error
    [of "\<lparr>alphabet = a, variables = v, rules = r, start_variable = s\<rparr>"]
  show "\<exists>msg. ContextFreeGrammar_init a v r s = Inl (ValueError msg)"
    by (auto simp: ContextFreeGrammar_init_def)
next
  from assms PCFG_validate_variables_error
    [of "\<lparr>alphabet = a, variables = v, rules = pr, start_variable = s\<rparr>"]
  show "\<exists>msg. PCFG_init F validate a v pr s = Inl (ValueError msg)"
    by (auto simp: PCFG_init_def)
qed

theorem grammar_construction_validates_witness:
  "ContextFreeGrammar_init {''a'', ''S''} {''S''} [] ''S''
     = Inl (ValueError ''alphabet and variables must not share elements'')
   \<and> PCFG_init exact Rule_validate {''a''} {''S''} [] ''T''
     = Inl (ValueError ''start variable must be in set of variables'')"
proof -
  have h1: "{''a'', ''S''} \<inter> {''S''} \<noteq> {} \<or> ''S'' \<notin> {''S''}" by simp
  have h2: "{''a''} \<inter> {''S''} \<noteq> {} \<or> ''T'' \<notin> {''S''}" by simp
  note t1 = grammar_construction_validates
    [OF h1, where r = "[]" and F = exact and validate = Rule_validate and pr = "[]"]
  note t2 = grammar_construction_validates
    [OF h2, where r = "[]" and F = exact and validate = Rule_validate and pr = "[]"]
  from t1 t2 show ?thesis
    by (simp add: ContextFreeGrammar_init_def validate_variables_def PCFG_init_def
        PCFG_validate_variables_def)
qed

section \<open>The mode argument (C10)\<close>

text \<open>
  C10. A mode other than \<^verbatim>\<open>"recognize"\<close> and \<^verbatim>\<open>"parse"\<close> makes both \<^verbatim>\<open>__call__\<close>
  methods raise \<^verbatim>\<open>ValueError\<close> with the same message. The result does not depend on the
  recognizer, the parser or the input, which are arbitrary here: neither is run, so no
  chart is built or filled.
\<close>

theorem mode_rejected:
  assumes "mode \<noteq> ''recognize''" and "mode \<noteq> ''parse''"
  shows "ContextFreeGrammarParser_call recognize parse string mode = Inl (ValueError mode_message)
       \<and> CKYParser_call recognize' parse' string' mode = Inl (ValueError mode_message)"
  using assms by (simp add: ContextFreeGrammarParser_call_def CKYParser_call_def)

theorem mode_rejected_witness:
  "ContextFreeGrammarParser_call (\<lambda>s. Inr True) (\<lambda>s. Inr [Tree ''S'' []]) [''a''] ''generate''
     = Inl (ValueError mode_message)
   \<and> CKYParser_call
       (PCKYParser_recognize exact
          \<lparr>alphabet = {''a''}, variables = {''S''}, rules = [], start_variable = ''S''\<rparr>)
       (PCKYParser_parse exact
          \<lparr>alphabet = {''a''}, variables = {''S''}, rules = [], start_variable = ''S''\<rparr>)
       [''a''] ''generate''
     = Inl (ValueError mode_message)"
proof -
  have h1: "''generate'' \<noteq> ''recognize''" by simp
  have h2: "''generate'' \<noteq> ''parse''" by simp
  show ?thesis by (rule mode_rejected [OF h1 h2])
qed

section \<open>Chart indexing (C6)\<close>

lemma py_index_Inr_iff:
  "(\<exists>x. py_index xs i = Inr x) \<longleftrightarrow> (- int (length xs) \<le> i \<and> i < int (length xs))"
  by (auto simp: py_index_def py_norm_def Let_def)

lemma py_index_Inl:
  "py_index xs i = Inl e \<Longrightarrow> e = IndexError \<and> (i < - int (length xs) \<or> int (length xs) \<le> i)"
  by (auto simp: py_index_def py_norm_def Let_def split: if_splits)

lemma py_index_in_set: "py_index xs i = Inr x \<Longrightarrow> x \<in> set xs"
  by (auto simp: py_index_def py_norm_def Let_def split: if_splits)

lemma py_index_nat [simp]: "k < length xs \<Longrightarrow> py_index xs (int k) = Inr (xs ! k)"
  by (simp add: py_index_def py_norm_def)

text \<open>
  C6, as the code has it. Reading a cell of a CKY chart with \<open>start \<ge> end\<close> raises
  \<^verbatim>\<open>ValueError\<close>. With \<open>0 \<le> start < end\<close> the read raises \<^verbatim>\<open>ValueError\<close> when the row
  \<open>start\<close> or the column \<open>end\<close> is beyond \<open>n\<close>, and otherwise it returns the cell stored
  at row \<open>start\<close> and column \<open>end\<close>. The chart is any square table of \<open>m = n + 1\<close> rows.
\<close>

theorem chart_read_guard:
  assumes "length (cells c) = m" and "\<forall>row \<in> set (cells c). length row = m"
  shows "(\<not> i < j \<longrightarrow> CKYChart_getitem c (i, j)
              = Inl (ValueError ''cannot index into the lower triangle of the chart''))
       \<and> (0 \<le> i \<and> i < j \<longrightarrow> CKYChart_getitem c (i, j)
              = (if int m \<le> i then Inl (ValueError ''row index is too large'')
                 else if int m \<le> j then Inl (ValueError ''column index is too large'')
                 else Inr (cells c ! nat i ! nat j)))"
proof (intro conjI impI)
  assume "\<not> i < j"
  then show "CKYChart_getitem c (i, j)
      = Inl (ValueError ''cannot index into the lower triangle of the chart'')"
    by (simp add: CKYChart_getitem_def CKYChart_validate_index_def)
next
  assume ij: "0 \<le> i \<and> i < j"
  show "CKYChart_getitem c (i, j)
      = (if int m \<le> i then Inl (ValueError ''row index is too large'')
         else if int m \<le> j then Inl (ValueError ''column index is too large'')
         else Inr (cells c ! nat i ! nat j))"
  proof (cases "int m \<le> i")
    case True
    then show ?thesis
      using ij assms(1)
      by (simp add: CKYChart_getitem_def CKYChart_validate_index_def py_index_def py_norm_def)
  next
    case False
    then have i: "nat i < length (cells c)" using ij assms(1) by linarith
    then have row: "py_index (cells c) i = Inr (cells c ! nat i)"
      using ij by (simp add: py_index_def py_norm_def)
    have len: "length (cells c ! nat i) = m" using assms(2) i by simp
    show ?thesis
      using False ij row len
      by (simp add: CKYChart_getitem_def CKYChart_validate_index_def py_index_def py_norm_def)
  qed
qed

lemma cells_init: "length (cells (CKYChart_init n :: 'e CKYChart)) = nat (n + 1)"
  "\<forall>row \<in> set (cells (CKYChart_init n :: 'e CKYChart)). length row = nat (n + 1)"
  by (auto simp: CKYChart_init_def)

text \<open>
  C6 at concrete reads of a chart for an input of two tokens, one cell of which has been
  written: a read on the diagonal, a row and a column beyond the chart, and the cell.
\<close>

theorem chart_read_guard_witness:
  "CKYChart_getitem \<lparr>input_size = 2, cells = [[[], [], [''S'']], [[], [], []], [[], [], []]]\<rparr>
       (1, 1)
     = Inl (ValueError ''cannot index into the lower triangle of the chart'')
   \<and> CKYChart_getitem \<lparr>input_size = 2, cells = [[[], [], [''S'']], [[], [], []], [[], [], []]]\<rparr>
       (3, 4)
     = Inl (ValueError ''row index is too large'')
   \<and> CKYChart_getitem \<lparr>input_size = 2, cells = [[[], [], [''S'']], [[], [], []], [[], [], []]]\<rparr>
       (0, 3)
     = Inl (ValueError ''column index is too large'')
   \<and> CKYChart_getitem \<lparr>input_size = 2, cells = [[[], [], [''S'']], [[], [], []], [[], [], []]]\<rparr>
       (0, 2)
     = Inr [''S'']"
proof -
  let ?c = "\<lparr>input_size = 2, cells = [[[], [], [''S'']], [[], [], []], [[], [], []]]\<rparr>
              :: string CKYChart"
  have a: "length (cells ?c) = 3" by simp
  have b: "\<forall>row \<in> set (cells ?c). length row = 3" by simp
  note g = chart_read_guard [OF a b]
  have 1: "\<not> (1 :: int) < 1" by simp
  have 2: "(0 :: int) \<le> 3 \<and> (3 :: int) < 4" by simp
  have 3: "(0 :: int) \<le> 0 \<and> (0 :: int) < 3" by simp
  have 4: "(0 :: int) \<le> 0 \<and> (0 :: int) < 2" by simp
  from g [THEN conjunct1, THEN mp, OF 1] g [THEN conjunct2, THEN mp, OF 2]
    g [THEN conjunct2, THEN mp, OF 3] g [THEN conjunct2, THEN mp, OF 4]
  show ?thesis by simp
qed

text \<open>
  C6 as stated fails: the guard is in \<^verbatim>\<open>CKYChart.__getitem__\<close> only. A write into the
  lower triangle succeeds, a write or an Earley access out of range raises
  \<^verbatim>\<open>IndexError\<close> and not \<^verbatim>\<open>ValueError\<close>, and the read at row \<open>-1\<close> and column \<open>0\<close>,
  of a cell below the diagonal, returns.
\<close>

theorem unguarded_chart_access:
  "CKYChart_setitem (CKYChart_init 2) (2, 1) [''S'']
     = Inr \<lparr>input_size = 2, cells = [[[], [], []], [[], [], []], [[], [''S''], []]]\<rparr>
   \<and> CKYChart_setitem (CKYChart_init 2) (0, 5) [''S''] = Inl IndexError
   \<and> CKYChart_getitem (CKYChart_init 2 :: string CKYChart) (- 1, 0) = Inr []
   \<and> EarleyChart_getitem (EarleyChart_init 2 ''S'' :: string EarleyChart) 5 = Inl IndexError"
  by (simp add: CKYChart_setitem_def CKYChart_init_def py_index_def py_norm_def py_store_def
      EarleyChart_getitem_def EarleyChart_init_def CKYChart_getitem_def
      CKYChart_validate_index_def numeral_3_eq_3)

section \<open>Termination of the Earley closure (C5)\<close>

lemma finite_entry_rules: "finite (entry_rules g string)"
  by (simp add: entry_rules_def)

lemma finite_rhs_symbols: "finite (rhs_symbols g string)"
  by (simp add: rhs_symbols_def finite_entry_rules)

lemma finite_entry_universe: "finite (entry_universe g string)"
proof -
  define L where "L = Max (insert 0 ((\<lambda>r. length (right_side r)) ` entry_rules g string))"
  define B where "B = rhs_symbols g string \<times> {..length string}"
  define mk where "mk = (\<lambda>(r, a, b, d, bps).
     \<lparr>dotted_rule = \<lparr>rule = r, span' = (a, b), dot = d\<rparr>, backpointers = bps\<rparr>)"
  have len: "length (right_side r) \<le> L" if "r \<in> entry_rules g string" for r
    unfolding L_def using that finite_entry_rules [of g string] by (intro Max_ge) auto
  have finB: "finite B" by (simp add: B_def finite_rhs_symbols)
  have fin: "finite (entry_rules g string \<times> {..length string} \<times> {..length string} \<times> {..L}
                \<times> {bps. set bps \<subseteq> B \<and> length bps \<le> L})"
    using finite_entry_rules finite_lists_length_le [OF finB] by blast
  have "entry_universe g string
          \<subseteq> mk ` (entry_rules g string \<times> {..length string} \<times> {..length string} \<times> {..L}
                \<times> {bps. set bps \<subseteq> B \<and> length bps \<le> L})"
  proof
    fix e assume e: "e \<in> entry_universe g string"
    let ?d = "dotted_rule e"
    have "e = mk (rule ?d, fst (span' ?d), snd (span' ?d), dot ?d, backpointers e)"
      by (simp add: mk_def)
    moreover have "(rule ?d, fst (span' ?d), snd (span' ?d), dot ?d, backpointers e)
        \<in> entry_rules g string \<times> {..length string} \<times> {..length string} \<times> {..L}
                \<times> {bps. set bps \<subseteq> B \<and> length bps \<le> L}"
      using e len [of "rule ?d"] by (auto simp: entry_universe_def B_def)
    ultimately show "e \<in> mk ` (entry_rules g string \<times> {..length string} \<times> {..length string}
        \<times> {..L} \<times> {bps. set bps \<subseteq> B \<and> length bps \<le> L})"
      by (rule image_eqI)
  qed
  then show ?thesis using fin by (meson finite_imageI finite_subset)
qed

lemma chart_grows_refl [simp]: "chart_grows c c"
  by (simp add: chart_grows_def)

lemma chart_grows_trans: "chart_grows a b \<Longrightarrow> chart_grows b c \<Longrightarrow> chart_grows a c"
  by (auto simp: chart_grows_def)

lemma foldE_invariant:
  assumes "foldE f xs s = Inr s'" and "P s"
    and "\<And>x t t'. x \<in> set xs \<Longrightarrow> P t \<Longrightarrow> f x t = Inr t' \<Longrightarrow> P t'"
  shows "P s'"
  using assms
proof (induction xs arbitrary: s)
  case Nil
  then show ?case by simp
next
  case (Cons x xs)
  from Cons.prems(1) obtain t where t: "f x s = Inr t" and rest: "foldE f xs t = Inr s'"
    by (auto split: sum.splits)
  have "P t" using Cons.prems(2,3) t by auto
  then show ?case using Cons.IH [OF rest] Cons.prems(3) by auto
qed

lemma chart_add_ok:
  assumes "chart_within g string c" and "k \<le> length string" and "e \<in> entry_universe g string"
  shows "\<exists>c'. chart_add c k e = Inr c' \<and> chart_within g string c' \<and> chart_grows c c'
           \<and> e \<in> set (positions c' ! k)"
proof -
  have len: "length (positions c) = length string + 1" using assms(1) by (simp add: chart_within_def)
  then have get: "EarleyChart_getitem c (int k) = Inr (positions c ! k)"
    using assms(2) by (simp add: EarleyChart_getitem_def py_index_def py_norm_def)
  let ?c' = "c\<lparr>positions := (positions c)[k := set_add e (positions c ! k)]\<rparr>"
  have eq: "chart_add c k e = Inr ?c'" by (simp add: chart_add_def get)
  have nth: "positions ?c' ! j = (if j = k then set_add e (positions c ! k) else positions c ! j)"
    if "j \<le> length string" for j
    using that len assms(2) by (simp add: nth_list_update)
  have sa: "set (set_add e xs) = insert e (set xs)" for xs :: "EarleyChartEntry list"
    by (auto simp: set_add_def)
  have w: "chart_within g string ?c'"
    using assms len unfolding chart_within_def by (auto simp: nth_list_update sa)
  have gr: "chart_grows c ?c'"
    unfolding chart_grows_def using len assms(2) by (auto simp: nth_list_update sa)
  have "e \<in> set (positions ?c' ! k)" using nth [OF assms(2)] by (simp add: sa)
  with eq w gr show ?thesis by blast
qed

lemma chart_add_Inr:
  assumes "chart_add c k e = Inr c'" and "chart_within g string c" and "k \<le> length string"
    and "e \<in> entry_universe g string"
  shows "chart_within g string c' \<and> chart_grows c c'"
  using chart_add_ok [OF assms(2,3,4)] assms(1) by auto

lemma predicted_in_universe:
  "r \<in> set (rules g) \<Longrightarrow> i \<le> length string \<Longrightarrow> predicted r i \<in> entry_universe g string"
  by (simp add: predicted_def entry_universe_def entry_rules_def)

lemma next_symbol_Inr:
  assumes "DottedRule_next_symbol d = Inr a"
  shows "dot d \<noteq> length (right_side (rule d)) \<and> (dot d < length (right_side (rule d))
           \<longrightarrow> a = right_side (rule d) ! dot d)"
  using assms
  by (auto simp: DottedRule_next_symbol_def DottedRule_is_complete_def py_index_def py_norm_def
      split: if_splits)

lemma complete_in_universe:
  assumes "EarleyChartEntry_complete prev entry e = Inr ce" and "prev \<in> entry_universe g string"
    and "e \<le> length string"
  shows "ce \<in> entry_universe g string"
proof -
  from assms(1) obtain a where a: "DottedRule_next_symbol (dotted_rule prev) = Inr a"
    and ce: "ce = \<lparr>dotted_rule = DottedRule_complete (dotted_rule prev) e,
                   backpointers = backpointers prev @ [(a, snd (span' (dotted_rule prev)))]\<rparr>"
    by (auto simp: EarleyChartEntry_complete_def Let_def split: sum.splits)
  from assms(2) have le: "dot (dotted_rule prev) \<le> length (right_side (rule (dotted_rule prev)))"
    by (simp add: entry_universe_def)
  with next_symbol_Inr [OF a] have lt: "dot (dotted_rule prev) < length (right_side (rule (dotted_rule prev)))"
    and av: "a = right_side (rule (dotted_rule prev)) ! dot (dotted_rule prev)"
    by auto
  have "a \<in> set (right_side (rule (dotted_rule prev)))"
    using lt av by simp
  moreover have "rule (dotted_rule prev) \<in> entry_rules g string"
    using assms(2) by (simp add: entry_universe_def)
  ultimately have "a \<in> rhs_symbols g string"
    unfolding rhs_symbols_def by blast
  then show ?thesis
    using assms(2,3) lt unfolding ce entry_universe_def DottedRule_complete_def by auto
qed

lemma predict_ok:
  assumes "EarleyParser_predict g c entry i = Inr c'" and "chart_within g string c"
    and "i \<le> length string"
  shows "chart_within g string c' \<and> chart_grows c c'"
proof -
  from assms(1) obtain a where
    f: "foldE (\<lambda>r c. chart_add c i (predicted r i)) (rules_for g a) c = Inr c'"
    by (auto simp: EarleyParser_predict_def split: sum.splits)
  show ?thesis
  proof (rule foldE_invariant [OF f, where P = "\<lambda>t. chart_within g string t \<and> chart_grows c t"])
    show "chart_within g string c \<and> chart_grows c c" using assms(2) by simp
  next
    fix r t t'
    assume r: "r \<in> set (rules_for g a)" and t: "chart_within g string t \<and> chart_grows c t"
      and s: "chart_add t i (predicted r i) = Inr t'"
    have "predicted r i \<in> entry_universe g string"
      using r assms(3) by (intro predicted_in_universe) (auto simp: rules_for_def)
    from chart_add_Inr [OF s _ assms(3) this] t
    show "chart_within g string t' \<and> chart_grows c t'" by (auto intro: chart_grows_trans)
  qed
qed

lemma scan_ok:
  assumes "EarleyParser_scan string c entry i = Inr c'" and "chart_within g string c"
    and "i < length string" and "entry \<in> entry_universe g string"
  shows "chart_within g string c' \<and> chart_grows c c'"
proof -
  have w: "py_index string (int i) = Inr (string ! i)" using assms(3) by (simp add: py_index_def py_norm_def)
  from assms(1) w obtain a where a: "DottedRule_next_symbol (dotted_rule entry) = Inr a"
    by (auto simp: EarleyParser_scan_def split: sum.splits)
  show ?thesis
  proof (cases "string ! i = a")
    case False
    then show ?thesis using assms(1,2) w a by (simp add: EarleyParser_scan_def)
  next
    case True
    let ?t = "\<lparr>dotted_rule = \<lparr>rule = \<lparr>left_side = a, right_side = [string ! i]\<rparr>,
                      span' = (i, i + 1), dot = 1\<rparr>, backpointers = []\<rparr>"
    from assms(1) w a True obtain c1 ce where
      c1: "chart_add c (i + 1) ?t = Inr c1" and
      ce: "EarleyChartEntry_complete entry ?t (i + 1) = Inr ce" and
      c': "chart_add c1 (i + 1) ce = Inr c'"
      by (auto simp: EarleyParser_scan_def Let_def split: sum.splits)
    have tu: "?t \<in> entry_universe g string"
      using assms(3) True by (auto simp: entry_universe_def entry_rules_def)
    have i1: "i + 1 \<le> length string" using assms(3) by simp
    from chart_add_Inr [OF c1 assms(2) i1 tu]
    have 1: "chart_within g string c1" "chart_grows c c1" by auto
    from complete_in_universe [OF ce assms(4) i1] have "ce \<in> entry_universe g string" .
    from chart_add_Inr [OF c' 1(1) i1 this] 1(2)
    show ?thesis by (auto intro: chart_grows_trans)
  qed
qed

lemma complete_step_ok:
  assumes "complete_step entry i prev t = Inr t'" and "chart_within g string t"
    and "i \<le> length string" and "entry \<in> entry_universe g string"
    and "prev \<in> entry_universe g string"
  shows "chart_within g string t' \<and> chart_grows t t'"
proof -
  obtain s e where se: "span' (dotted_rule entry) = (s, e)" by (cases "span' (dotted_rule entry)")
  have e: "e \<le> length string" using assms(4) se by (simp add: entry_universe_def)
  show ?thesis
  proof (cases "DottedRule_is_complete (dotted_rule prev)")
    case True
    then show ?thesis using assms(1,2) se by (simp add: complete_step_def)
  next
    case False
    from assms(1) se False obtain b where
      b: "EarleyChartEntry_is_completion_of entry prev = Inr b"
      by (auto simp: complete_step_def split: sum.splits)
    show ?thesis
    proof (cases b)
      case False
      then show ?thesis using assms(1,2) se b \<open>\<not> DottedRule_is_complete (dotted_rule prev)\<close>
        by (simp add: complete_step_def)
    next
      case True
      from assms(1) se b True \<open>\<not> DottedRule_is_complete (dotted_rule prev)\<close> obtain ce where
        ce: "EarleyChartEntry_complete prev entry e = Inr ce" and
        t': "chart_add t i ce = Inr t'"
        by (auto simp: complete_step_def split: sum.splits if_splits)
      from complete_in_universe [OF ce assms(5) e] have "ce \<in> entry_universe g string" .
      from chart_add_Inr [OF t' assms(2,3) this] show ?thesis .
    qed
  qed
qed

lemma chart_grows_within:
  "chart_grows c t \<Longrightarrow> chart_within g string c \<Longrightarrow> chart_within g string t
     \<Longrightarrow> k \<le> length string \<Longrightarrow> set (positions c ! k) \<subseteq> set (positions t ! k)"
  by (auto simp: chart_grows_def chart_within_def)

lemma getitem_within:
  "chart_within g string c \<Longrightarrow> k \<le> length string
     \<Longrightarrow> EarleyChart_getitem c (int k) = Inr (positions c ! k)"
  by (simp add: chart_within_def EarleyChart_getitem_def py_index_def py_norm_def)

lemma complete_ok:
  assumes "EarleyParser_complete c entry i = Inr c'" and "chart_within g string c"
    and "i \<le> length string" and "entry \<in> entry_universe g string"
  shows "chart_within g string c' \<and> chart_grows c c'"
proof -
  let ?s = "fst (span' (dotted_rule entry))"
  have s: "?s \<le> length string" using assms(4) by (simp add: entry_universe_def)
  from assms(1) getitem_within [OF assms(2) s]
  have f: "foldE (complete_step entry i) (positions c ! ?s) c = Inr c'"
    by (simp add: EarleyParser_complete_def)
  show ?thesis
  proof (rule foldE_invariant [OF f, where P = "\<lambda>t. chart_within g string t \<and> chart_grows c t"])
    show "chart_within g string c \<and> chart_grows c c" using assms(2) by simp
  next
    fix prev t t'
    assume p: "prev \<in> set (positions c ! ?s)" and t: "chart_within g string t \<and> chart_grows c t"
      and st: "complete_step entry i prev t = Inr t'"
    have "prev \<in> entry_universe g string" using p assms(2) s by (auto simp: chart_within_def)
    from complete_step_ok [OF st _ assms(3,4) this] t
    show "chart_within g string t' \<and> chart_grows c t'" by (auto intro: chart_grows_trans)
  qed
qed

lemma process_entry_ok:
  assumes "process_entry g string i entry c = Inr c'" and "chart_within g string c"
    and "i \<le> length string" and "entry \<in> entry_universe g string"
  shows "chart_within g string c' \<and> chart_grows c c'"
  using assms predict_ok [of g c entry i c' string] scan_ok [of string c entry i c' g]
    complete_ok [of c entry i c' g string]
  by (auto simp: process_entry_def split: if_splits sum.splits)

lemma closure_pass_ok:
  assumes "closure_pass g string i c = Inr c'" and "chart_within g string c"
    and "i \<le> length string"
  shows "chart_within g string c' \<and> chart_grows c c'"
proof -
  from assms(1) getitem_within [OF assms(2,3)]
  have f: "foldE (process_entry g string i) (positions c ! i) c = Inr c'"
    by (simp add: closure_pass_def)
  show ?thesis
  proof (rule foldE_invariant [OF f, where P = "\<lambda>t. chart_within g string t \<and> chart_grows c t"])
    show "chart_within g string c \<and> chart_grows c c" using assms(2) by simp
  next
    fix entry t t'
    assume p: "entry \<in> set (positions c ! i)" and t: "chart_within g string t \<and> chart_grows c t"
      and st: "process_entry g string i entry t = Inr t'"
    have "entry \<in> entry_universe g string" using p assms(2,3) by (auto simp: chart_within_def)
    from process_entry_ok [OF st _ assms(3) this] t
    show "chart_within g string t' \<and> chart_grows c t'" by (auto intro: chart_grows_trans)
  qed
qed

lemma closure_returns:
  assumes "chart_within g string c" and "i \<le> length string"
  shows "\<exists>r. closure g string i c = Some r
           \<and> (\<forall>c'. r = Inr c' \<longrightarrow> chart_within g string c' \<and> chart_grows c c')"
  using assms(1)
proof (induction "card (entry_universe g string - set (positions c ! i))" arbitrary: c
    rule: less_induct)
  case less
  show ?case
  proof (cases "closure_pass g string i c")
    case (Inl e)
    then show ?thesis by (subst closure.simps) simp
  next
    case (Inr c')
    from closure_pass_ok [OF Inr less.prems assms(2)]
    have w: "chart_within g string c'" and gr: "chart_grows c c'" by auto
    show ?thesis
    proof (cases "set (positions c' ! i) = set (positions c ! i)")
      case True
      then show ?thesis using Inr w gr by (subst closure.simps) simp
    next
      case False
      have sub: "set (positions c ! i) \<subseteq> set (positions c' ! i)"
        using chart_grows_within [OF gr less.prems w assms(2)] .
      have inU: "set (positions c' ! i) \<subseteq> entry_universe g string"
        using w assms(2) by (simp add: chart_within_def)
      have "entry_universe g string - set (positions c' ! i)
              \<subset> entry_universe g string - set (positions c ! i)"
        using sub inU False by blast
      then have "card (entry_universe g string - set (positions c' ! i))
              < card (entry_universe g string - set (positions c ! i))"
        by (intro psubset_card_mono) (simp_all add: finite_entry_universe)
      from less.hyps [OF this w] obtain r where
        r: "closure g string i c' = Some r"
          "\<forall>c''. r = Inr c'' \<longrightarrow> chart_within g string c'' \<and> chart_grows c' c''"
        by blast
      have "closure g string i c = Some r"
        using Inr False r(1) by (subst closure.simps) simp
      with r(2) gr show ?thesis by (auto intro: chart_grows_trans)
    qed
  qed
qed

lemma fill_positions_returns:
  assumes "chart_within g string c" and "\<forall>i \<in> set is. i \<le> length string"
  shows "\<exists>r. fill_positions g string is c = Some r
           \<and> (\<forall>c'. r = Inr c' \<longrightarrow> chart_within g string c' \<and> chart_grows c c')"
  using assms
proof (induction "is" arbitrary: c)
  case Nil
  then show ?case by simp
next
  case (Cons i "is")
  from closure_returns [OF Cons.prems(1), of i] Cons.prems(2) obtain r where
    r: "closure g string i c = Some r"
      "\<forall>c'. r = Inr c' \<longrightarrow> chart_within g string c' \<and> chart_grows c c'"
    by auto
  show ?case
  proof (cases r)
    case (Inl e)
    then show ?thesis using r by simp
  next
    case (Inr c')
    with r have w: "chart_within g string c'" and gr: "chart_grows c c'" by auto
    from Cons.IH [OF w] Cons.prems(2) obtain r' where
      r': "fill_positions g string is c' = Some r'"
        "\<forall>c''. r' = Inr c'' \<longrightarrow> chart_within g string c'' \<and> chart_grows c' c''"
      by auto
    then show ?thesis using r Inr gr by (auto intro: chart_grows_trans)
  qed
qed

lemma init_within:
  "chart_within g string (EarleyChart_init (int (length string)) s)"
  by (auto simp: chart_within_def EarleyChart_init_def nat_add_distrib nth_Cons')

lemma seed_chart_ok:
  "\<exists>c. seed_chart g string = Inr c \<and> chart_within g string c
         \<and> chart_start_variable c = start_variable g"
proof -
  let ?c0 = "EarleyChart_init (int (length string)) (start_variable g) :: Chart"
  have "\<exists>c. foldE (\<lambda>r c. chart_add c 0 (predicted r 0)) rs c0 = Inr c \<and> chart_within g string c
         \<and> chart_start_variable c = chart_start_variable c0"
    if "chart_within g string c0" and "set rs \<subseteq> set (rules g)" for rs c0
    using that
  proof (induction rs arbitrary: c0)
    case Nil
    then show ?case by simp
  next
    case (Cons r rs)
    have "predicted r 0 \<in> entry_universe g string"
      using Cons.prems(2) by (intro predicted_in_universe) auto
    from chart_add_ok [OF Cons.prems(1) _ this, of 0] obtain c1 where
      c1: "chart_add c0 0 (predicted r 0) = Inr c1" "chart_within g string c1" "chart_grows c0 c1"
      by auto
    from Cons.IH [OF c1(2)] Cons.prems(2) obtain c where
      "foldE (\<lambda>r c. chart_add c 0 (predicted r 0)) rs c1 = Inr c" "chart_within g string c"
      "chart_start_variable c = chart_start_variable c1"
      by auto
    then show ?case using c1 by (auto simp: chart_grows_def)
  qed
  from this [OF init_within, of "rules_for g (start_variable g)" "start_variable g"]
  show ?thesis by (auto simp: seed_chart_def rules_for_def EarleyChart_init_def)
qed

lemma fill_chart_returns:
  "\<exists>r. EarleyParser_fill_chart g string = Some r
     \<and> (\<forall>c. r = Inr c \<longrightarrow> chart_within g string c \<and> chart_start_variable c = start_variable g)"
proof -
  from seed_chart_ok obtain c where
    c: "seed_chart g string = Inr c" "chart_within g string c"
      "chart_start_variable c = start_variable g"
    by blast
  from fill_positions_returns [OF c(2), of "[0..<length string + 1]"] obtain r where
    "fill_positions g string [0..<length string + 1] c = Some r"
    "\<forall>c'. r = Inr c' \<longrightarrow> chart_within g string c' \<and> chart_grows c c'"
    by auto
  then show ?thesis using c by (auto simp: EarleyParser_fill_chart_def chart_grows_def)
qed

text \<open>
  C5. For every grammar, left-recursive rules and empty right sides included, and every
  input, filling the chart returns: each repeat-until-no-change loop ends, by a chart or by
  an exception of one of the operations. (\<^const>\<open>closure\<close> is \<open>None\<close> when the loop runs
  forever, so returning is \<open>Some\<close>.) Every entry added at a position lies in the finite set
  \<^const>\<open>entry_universe\<close>, adding an entry that is there already changes nothing, and a pass
  that changes the position enlarges it.
\<close>

theorem earley_fill_chart_terminates: "\<exists>r. EarleyParser_fill_chart g string = Some r"
  using fill_chart_returns by blast

section \<open>The walkthrough's example (C3)\<close>

lemma unhappiness_fill:
  "EarleyParser_fill_chart unhappiness_grammar [''un'', ''happy'', ''ness'']
     = Some (Inr unhappiness_chart)"
  by code_simp


lemma unhappiness_tree:
  "construct_parses (5 + fuel) unhappiness_chart (mk_entry ''Word'' [''N''] (0, 3) 1 [(''N'', 0)])
     = Some (Inr (Tree ''Word''
         [Tree ''N''
            [Tree ''Adj'' [Tree ''Prefix'' [Tree ''un'' []], Tree ''Adj'' [Tree ''happy'' []]],
             Tree ''Suffix'' [Tree ''ness'' []]]]))"
proof -
  have fuel: "5 + fuel = Suc (Suc (Suc (Suc (Suc fuel))))" by simp
  show ?thesis
    unfolding fuel
    by (simp add: child_ends_def unhappiness_chart_def mk_entry_def mk_rule_def
        EarleyChart_getitem_def py_index_def py_norm_def DottedRule_is_complete_def)
qed

lemma unhappiness_parse:
  "EarleyParser_parse (EarleyParser_fill_chart unhappiness_grammar) (construct_parses (5 + fuel))
     [''un'', ''happy'', ''ness'']
     = Some (Inr [Tree ''Word''
         [Tree ''N''
            [Tree ''Adj'' [Tree ''Prefix'' [Tree ''un'' []], Tree ''Adj'' [Tree ''happy'' []]],
             Tree ''Suffix'' [Tree ''ness'' []]]]])"
proof -
  have parses: "EarleyChart_parses (construct_parses (5 + fuel)) unhappiness_chart
      = collect_parses (construct_parses (5 + fuel) unhappiness_chart)
          [mk_entry ''Word'' [''N''] (0, 3) 1 [(''N'', 0)]] []"
    by (simp add: EarleyChart_parses_def unhappiness_chart_def py_index_def py_norm_def
        mk_entry_def mk_rule_def DottedRule_is_complete_def EarleyChart_input_size_def)
  show ?thesis
    unfolding EarleyParser_parse_def unhappiness_fill
    by (simp del: One_nat_def add: parses unhappiness_tree set_add_def)
qed


section \<open>What the Earley recognizer returns (C4)\<close>

lemma last_position:
  "length (positions c) = n + 1 \<Longrightarrow> EarleyChart_getitem c (- 1) = Inr (positions c ! n)"
  by (simp add: EarleyChart_getitem_def py_index_def py_norm_def)

text \<open>
  C4. \<^verbatim>\<open>EarleyParser._recognize\<close> returns \<^verbatim>\<open>True\<close> exactly when the chart was filled and its
  last position, the one of index \<open>n = len(string)\<close>, holds an entry whose dotted rule is
  complete, whose left side is the start variable of the grammar and whose span is
  \<open>(0, n)\<close>. The filler is any function that returns charts of \<open>n + 1\<close> positions, as
  \<^verbatim>\<open>EarleyChart(len(string))\<close> has.
\<close>

theorem earley_recognize_postcondition:
  assumes "\<And>chart. fill string = Some (Inr chart) \<Longrightarrow> length (positions chart) = length string + 1"
  shows "EarleyParser_recognize fill g string = Some (Inr True)
     \<longleftrightarrow> (\<exists>chart. fill string = Some (Inr chart)
           \<and> (\<exists>entry \<in> set (positions chart ! length string).
                 DottedRule_is_complete (dotted_rule entry)
                 \<and> left_side (rule (dotted_rule entry)) = start_variable g
                 \<and> span' (dotted_rule entry) = (0, length string)))"
proof (cases "fill string")
  case None
  then show ?thesis by (simp add: EarleyParser_recognize_def)
next
  case (Some r)
  show ?thesis
  proof (cases r)
    case (Inl e)
    then show ?thesis using Some by (simp add: EarleyParser_recognize_def)
  next
    case (Inr chart)
    from assms Some Inr have "length (positions chart) = length string + 1" by simp
    from last_position [OF this] show ?thesis
      using Some Inr
      by (auto simp: EarleyParser_recognize_def list_ex_iff is_parse_of_def)
  qed
qed

lemma fill_chart_length:
  assumes "EarleyParser_fill_chart g string = Some (Inr chart)"
  shows "length (positions chart) = length string + 1"
  using fill_chart_returns [of g string] assms by (auto simp: chart_within_def)

theorem earley_recognize_postcondition_witness:
  "EarleyParser_recognize (EarleyParser_fill_chart unhappiness_grammar) unhappiness_grammar
     [''un'', ''happy'', ''ness''] = Some (Inr True)
   \<and> mk_entry ''Word'' [''N''] (0, 3) 1 [(''N'', 0)] \<in> set (positions unhappiness_chart ! 3)"
proof -
  let ?s = "[''un'', ''happy'', ''ness'']"
  let ?e = "mk_entry ''Word'' [''N''] (0, 3) 1 [(''N'', 0)]"
  have mem: "?e \<in> set (positions unhappiness_chart ! length ?s)"
    by (simp add: unhappiness_chart_def)
  have ok: "DottedRule_is_complete (dotted_rule ?e)
      \<and> left_side (rule (dotted_rule ?e)) = start_variable unhappiness_grammar
      \<and> span' (dotted_rule ?e) = (0, length ?s)"
    by (simp add: mk_entry_def mk_rule_def DottedRule_is_complete_def unhappiness_grammar_def)
  have len: "length (positions chart) = length ?s + 1"
    if "EarleyParser_fill_chart unhappiness_grammar ?s = Some (Inr chart)" for chart
    using that by (rule fill_chart_length)
  note post = earley_recognize_postcondition
    [of "EarleyParser_fill_chart unhappiness_grammar" ?s unhappiness_grammar, OF len]
  have "EarleyParser_recognize (EarleyParser_fill_chart unhappiness_grammar) unhappiness_grammar ?s
          = Some (Inr True)"
    using post unhappiness_fill mem ok by blast
  moreover have "?e \<in> set (positions unhappiness_chart ! 3)"
    by (simp add: unhappiness_chart_def)
  ultimately show ?thesis by (rule conjI)
qed

section \<open>Validation of the rule probabilities (C8)\<close>







section \<open>Recognition and parsing agree (C1)\<close>

lemmas pcky_eval =
  PCKYParser_fill_chart_def CKYChart_init_def fill_base_cell_def
  py_index_def py_norm_def reduce_def cell_update_def CKYChart_getitem_def
  CKYChart_validate_index_def entry_set_add_def fill_length_def fill_span_def fill_split_def
  combine_def Let_def mk_prule_def exact_def

lemma square_row: "square c m \<Longrightarrow> i < m \<Longrightarrow> length (cells c ! i) = m"
  by (auto simp: square_def)

lemma getitem_nat:
  "square c m \<Longrightarrow> i < j \<Longrightarrow> j < m \<Longrightarrow> CKYChart_getitem c (int i, int j) = Inr (cells c ! i ! j)"
  by (simp add: CKYChart_getitem_def CKYChart_validate_index_def py_index_def py_norm_def
      square_def)

lemma cell_update_nat:
  "square c m \<Longrightarrow> i < j \<Longrightarrow> j < m \<Longrightarrow> cell_update c (int i, int j) f = Inr (upd c i j f)"
  by (simp add: cell_update_def getitem_nat py_norm_def upd_def)

lemma square_upd:
  assumes "square c m"
  shows "square (upd c i j f) m"
proof (cases "i < length (cells c)")
  case True
  then have "length (cells c ! i) = m" using assms by (auto simp: square_def)
  then show ?thesis
    using assms True
    by (auto simp: square_def upd_def dest!: set_update_subset_insert [THEN subsetD])
next
  case False
  then show ?thesis using assms by (simp add: square_def upd_def list_update_beyond)
qed

lemma cells_upd:
  "square c m \<Longrightarrow> i < m \<Longrightarrow> j < m \<Longrightarrow> a < m \<Longrightarrow> b < m
     \<Longrightarrow> cells (upd c i j f) ! a ! b = (if a = i \<and> b = j then f (cells c ! i ! j) else cells c ! a ! b)"
  by (auto simp: upd_def square_def nth_list_update)

lemma upd_upd:
  "square c m \<Longrightarrow> i < m \<Longrightarrow> j < m \<Longrightarrow> upd (upd c i j f) i j h = upd c i j (\<lambda>x. h (f x))"
  by (simp add: upd_def square_def)

lemma upd_cong: "f (cells c ! i ! j) = h (cells c ! i ! j) \<Longrightarrow> upd c i j f = upd c i j h"
  by (simp add: upd_def)

lemma combine_nat:
  assumes "square c m" and "i < j" and "j < m"
  shows "combine F keep (i, j) l r pr c = Inr (upd c i j (combined F keep l r pr))"
proof -
  obtain parent rule_lp where pr: "pr = (parent, rule_lp)" by (cases pr)
  have im: "i < m" using assms by simp
  let ?lp = "float_add F (float_add F rule_lp (entry_logprob l)) (entry_logprob r)"
  let ?cell = "cells c ! i ! j"
  show ?thesis
  proof (cases keep)
    case True
    have "combine F keep (i, j) l r pr c
            = Inr (upd c i j (entry_set_add (PCKYChartEntry parent ?lp [l, r])))"
      using assms True by (simp add: pr combine_def cell_update_nat)
    also have "upd c i j (entry_set_add (PCKYChartEntry parent ?lp [l, r]))
            = upd c i j (combined F keep l r pr)"
      using True by (intro upd_cong) (simp add: combined_def pr Let_def)
    finally show ?thesis .
  next
    case False
    show ?thesis
    proof (cases "filter (\<lambda>e. entry_symbol e = parent) ?cell")
      case Nil
      have "combine F keep (i, j) l r pr c
              = Inr (upd c i j (entry_set_add (PCKYChartEntry parent ?lp [])))"
        using assms False Nil by (simp add: pr combine_def getitem_nat cell_update_nat)
      also have "upd c i j (entry_set_add (PCKYChartEntry parent ?lp []))
              = upd c i j (combined F keep l r pr)"
        using False Nil by (intro upd_cong) (simp add: combined_def pr Let_def)
      finally show ?thesis .
    next
      case (Cons existing rest)
      let ?new = "PCKYChartEntry parent (scipy_logsumexp F [entry_logprob existing, ?lp]) []"
      have sq: "square (upd c i j (entry_set_remove existing)) m"
        using assms(1) by (rule square_upd)
      have "combine F keep (i, j) l r pr c
              = Inr (upd (upd c i j (entry_set_remove existing)) i j (entry_set_add ?new))"
        using assms False Cons sq
        by (simp add: pr combine_def getitem_nat cell_update_nat)
      also have "upd (upd c i j (entry_set_remove existing)) i j (entry_set_add ?new)
              = upd c i j (\<lambda>x. entry_set_add ?new (entry_set_remove existing x))"
        using assms im by (simp add: upd_upd)
      also have "\<dots> = upd c i j (combined F keep l r pr)"
        using False Cons by (intro upd_cong) (simp add: combined_def pr Let_def)
      finally show ?thesis .
    qed
  qed
qed

lemma entry_eq_symbol: "entry_eq x y \<Longrightarrow> entry_symbol x = entry_symbol y"
  by (cases x; cases y) simp

lemma set_entry_set_add:
  "set (entry_set_add e cell) = (if list_ex (\<lambda>e'. entry_eq e' e) cell then set cell else insert e (set cell))"
  by (simp add: entry_set_add_def)

lemma symbols_entry_set_add:
  "entry_symbol ` set (entry_set_add e cell) = insert (entry_symbol e) (entry_symbol ` set cell)"
proof (cases "list_ex (\<lambda>e'. entry_eq e' e) cell")
  case True
  then obtain e' where "e' \<in> set cell" "entry_eq e' e" by (auto simp: list_ex_iff)
  then have "entry_symbol e \<in> entry_symbol ` set cell"
    using entry_eq_symbol [of e' e] by (metis imageI)
  then show ?thesis using True by (auto simp: set_entry_set_add)
next
  case False
  then show ?thesis by (simp add: set_entry_set_add)
qed

lemma set_entry_set_remove: "set (entry_set_remove e cell) \<subseteq> set cell"
  by (induction cell) auto

lemma entry_set_remove_keeps:
  "x \<in> set cell \<Longrightarrow> \<not> entry_eq x e \<Longrightarrow> x \<in> set (entry_set_remove e cell)"
  by (induction cell) auto

lemma symbols_combined:
  "entry_symbol ` set (combined F keep l r pr cell) = insert (fst pr) (entry_symbol ` set cell)"
proof (cases keep)
  case True
  then show ?thesis by (simp add: combined_def Let_def symbols_entry_set_add)
next
  case False
  show ?thesis
  proof (cases "filter (\<lambda>e. entry_symbol e = fst pr) cell")
    case Nil
    then show ?thesis using False by (simp add: combined_def Let_def symbols_entry_set_add)
  next
    case (Cons existing rest)
    then have "existing \<in> set (filter (\<lambda>e. entry_symbol e = fst pr) cell)" by simp
    then have ex: "existing \<in> set cell" "entry_symbol existing = fst pr" by simp_all
    have "entry_symbol ` set (entry_set_remove existing cell) \<union> {fst pr}
            = entry_symbol ` set cell \<union> {fst pr}"
    proof
      show "entry_symbol ` set (entry_set_remove existing cell) \<union> {fst pr}
              \<subseteq> entry_symbol ` set cell \<union> {fst pr}"
        using set_entry_set_remove [of existing cell] by auto
    next
      show "entry_symbol ` set cell \<union> {fst pr}
              \<subseteq> entry_symbol ` set (entry_set_remove existing cell) \<union> {fst pr}"
      proof
        fix a assume "a \<in> entry_symbol ` set cell \<union> {fst pr}"
        then consider "a = fst pr" | x where "x \<in> set cell" "a = entry_symbol x" "a \<noteq> fst pr"
          by auto
        then show "a \<in> entry_symbol ` set (entry_set_remove existing cell) \<union> {fst pr}"
        proof cases
          case 1
          then show ?thesis by simp
        next
          case 2
          then have "\<not> entry_eq x existing" using ex(2) by (auto dest: entry_eq_symbol)
          from entry_set_remove_keeps [OF 2(1) this] 2(2) show ?thesis by auto
        qed
      qed
    qed
    then show ?thesis
      using False Cons by (simp add: combined_def Let_def symbols_entry_set_add)
  qed
qed

lemma stepped_refl: "square c m \<Longrightarrow> stepped m c c i j {}"
  by (simp add: stepped_def)

lemma stepped_trans:
  "stepped m a b i j S \<Longrightarrow> stepped m b c i j T \<Longrightarrow> stepped m a c i j (S \<union> T)"
  by (auto simp: stepped_def)

lemma stepped_square: "stepped m c c' i j S \<Longrightarrow> square c' m"
  by (simp add: stepped_def)

lemma stepped_other:
  "stepped m c c' i j S \<Longrightarrow> a < m \<Longrightarrow> b < m \<Longrightarrow> (a, b) \<noteq> (i, j)
     \<Longrightarrow> cells c' ! a ! b = cells c ! a ! b"
  by (simp add: stepped_def)

lemma stepped_upd:
  assumes "square c m" and "i < m" and "j < m"
    and "entry_symbol ` set (f (cells c ! i ! j)) = entry_symbol ` set (cells c ! i ! j) \<union> S"
  shows "stepped m c (upd c i j f) i j S"
  using assms by (auto simp: stepped_def square_upd cells_upd syms_def)

lemma combine_stepped:
  assumes "square c m" and "i < j" and "j < m"
  shows "\<exists>c'. combine F keep (i, j) l r pr c = Inr c' \<and> stepped m c c' i j {fst pr}"
proof -
  have "stepped m c (upd c i j (combined F keep l r pr)) i j {fst pr}"
    using assms by (intro stepped_upd) (simp_all add: symbols_combined)
  then show ?thesis using combine_nat [OF assms] by simp
qed

lemma reduce_loop_stepped:
  assumes "square c m" and "i < j" and "j < m"
  shows "\<exists>c'. foldE (combine F keep (i, j) l r) prs c = Inr c' \<and> stepped m c c' i j (fst ` set prs)"
  using assms(1)
proof (induction prs arbitrary: c)
  case Nil
  then show ?case by (simp add: stepped_refl)
next
  case (Cons pr prs)
  from combine_stepped [OF Cons.prems assms(2,3)] obtain c1 where
    c1: "combine F keep (i, j) l r pr c = Inr c1" "stepped m c c1 i j {fst pr}"
    by blast
  from Cons.IH [OF stepped_square [OF c1(2)]] obtain c' where
    c': "foldE (combine F keep (i, j) l r) prs c1 = Inr c'" "stepped m c1 c' i j (fst ` set prs)"
    by blast
  from stepped_trans [OF c1(2) c'(2)] c1(1) c'(1) show ?case by simp
qed

lemma rights_loop_stepped:
  assumes "square c m" and "i < j" and "j < m"
  shows "\<exists>c'. foldE (\<lambda>r. foldE (combine F keep (i, j) l r)
                          (reduce g [entry_symbol l, entry_symbol r])) rs c = Inr c'
           \<and> stepped m c c' i j
               (\<Union>r \<in> set rs. fst ` set (reduce g [entry_symbol l, entry_symbol r]))"
  using assms(1)
proof (induction rs arbitrary: c)
  case Nil
  then show ?case by (simp add: stepped_refl)
next
  case (Cons r rs)
  from reduce_loop_stepped [OF Cons.prems assms(2,3)] obtain c1 where
    c1: "foldE (combine F keep (i, j) l r) (reduce g [entry_symbol l, entry_symbol r]) c = Inr c1"
      "stepped m c c1 i j (fst ` set (reduce g [entry_symbol l, entry_symbol r]))"
    by blast
  from Cons.IH [OF stepped_square [OF c1(2)]] obtain c' where
    c': "foldE (\<lambda>r. foldE (combine F keep (i, j) l r)
                          (reduce g [entry_symbol l, entry_symbol r])) rs c1 = Inr c'"
      "stepped m c1 c' i j (\<Union>r \<in> set rs. fst ` set (reduce g [entry_symbol l, entry_symbol r]))"
    by blast
  from stepped_trans [OF c1(2) c'(2)] c1(1) c'(1) show ?case by simp
qed

lemma lefts_loop_stepped:
  assumes "square c m" and "i < k" and "k < j" and "j < m" and "cells c ! k ! j = R"
  shows "\<exists>c'. foldE (\<lambda>left_entry c.
              case CKYChart_getitem c (int k, int j) of
                Inl e \<Rightarrow> Inl e
              | Inr rights \<Rightarrow>
                  foldE (\<lambda>right_entry.
                      foldE (combine F keep (i, j) left_entry right_entry)
                        (reduce g [entry_symbol left_entry, entry_symbol right_entry]))
                    rights c) ls c = Inr c'
           \<and> stepped m c c' i j
               (\<Union>l \<in> set ls. \<Union>r \<in> set R. fst ` set (reduce g [entry_symbol l, entry_symbol r]))"
  using assms(1,5)
proof (induction ls arbitrary: c)
  case Nil
  then show ?case by (simp add: stepped_refl)
next
  case (Cons l ls)
  have ij: "i < j" using assms(2,3) by simp
  have get: "CKYChart_getitem c (int k, int j) = Inr R"
    using getitem_nat [OF Cons.prems(1) assms(3,4)] Cons.prems(2) by simp
  from rights_loop_stepped [OF Cons.prems(1) ij assms(4), where F = F and keep = keep and l = l and g = g
      and rs = R] obtain c1 where
    c1: "foldE (\<lambda>r. foldE (combine F keep (i, j) l r)
                          (reduce g [entry_symbol l, entry_symbol r])) R c = Inr c1"
      "stepped m c c1 i j (\<Union>r \<in> set R. fst ` set (reduce g [entry_symbol l, entry_symbol r]))"
    by blast
  have "cells c1 ! k ! j = R"
    using stepped_other [OF c1(2), of k j] assms(2,3,4) Cons.prems(2) by simp
  from Cons.IH [OF stepped_square [OF c1(2)] this] obtain c' where
    c': "foldE (\<lambda>left_entry c.
              case CKYChart_getitem c (int k, int j) of
                Inl e \<Rightarrow> Inl e
              | Inr rights \<Rightarrow>
                  foldE (\<lambda>right_entry.
                      foldE (combine F keep (i, j) left_entry right_entry)
                        (reduce g [entry_symbol left_entry, entry_symbol right_entry]))
                    rights c) ls c1 = Inr c'"
      "stepped m c1 c' i j
         (\<Union>l \<in> set ls. \<Union>r \<in> set R. fst ` set (reduce g [entry_symbol l, entry_symbol r]))"
    by blast
  from stepped_trans [OF c1(2) c'(2)] c1(1) c'(1) get show ?case by simp
qed

lemma fill_split_stepped:
  assumes "square c m" and "i < k" and "k < j" and "j < m"
  shows "\<exists>c'. fill_split F keep g i j k c = Inr c'
           \<and> stepped m c c' i j (parents g (syms c i k) (syms c k j))"
proof -
  have km: "k < m" using assms(3,4) by simp
  have get: "CKYChart_getitem c (int i, int k) = Inr (cells c ! i ! k)"
    using getitem_nat [OF assms(1,2) km] .
  have "(\<Union>l \<in> set (cells c ! i ! k). \<Union>r \<in> set (cells c ! k ! j).
           fst ` set (reduce g [entry_symbol l, entry_symbol r]))
        = parents g (syms c i k) (syms c k j)"
    by (auto simp: parents_def syms_def)
  with lefts_loop_stepped [OF assms refl, where F = F and keep = keep and g = g
      and ls = "cells c ! i ! k"] get
  show ?thesis by (simp add: fill_split_def)
qed

lemma foldE_sim:
  assumes "R s1 s2"
    and "\<And>x t1 t2. x \<in> set xs \<Longrightarrow> R t1 t2
           \<Longrightarrow> \<exists>t1' t2'. f1 x t1 = Inr t1' \<and> f2 x t2 = Inr t2' \<and> R t1' t2'"
  shows "\<exists>s1' s2'. foldE f1 xs s1 = Inr s1' \<and> foldE f2 xs s2 = Inr s2' \<and> R s1' s2'"
  using assms
proof (induction xs arbitrary: s1 s2)
  case Nil
  then show ?case by simp
next
  case (Cons x xs)
  from Cons.prems(2) [of x s1 s2] Cons.prems(1) obtain t1 t2 where
    t: "f1 x s1 = Inr t1" "f2 x s2 = Inr t2" "R t1 t2"
    by auto
  from Cons.IH [OF t(3)] Cons.prems(2) obtain s1' s2' where
    "foldE f1 xs t1 = Inr s1'" "foldE f2 xs t2 = Inr s2'" "R s1' s2'"
    by (metis list.set_intros(2))
  with t show ?case by simp
qed

subsection \<open>The two fillers put the same symbols into every cell\<close>

lemma fill_split_sim:
  assumes "sym_equiv m c1 c2" and "i < k" and "k < j" and "j < m"
  shows "\<exists>c1' c2'. fill_split F True g i j k c1 = Inr c1'
           \<and> fill_split F False g i j k c2 = Inr c2' \<and> sym_equiv m c1' c2'"
proof -
  from assms(1) have sq1: "square c1 m" and sq2: "square c2 m"
    and eq: "\<And>a b. a < m \<Longrightarrow> b < m \<Longrightarrow> syms c1 a b = syms c2 a b"
    by (auto simp: sym_equiv_def)
  have im: "i < m" and km: "k < m" using assms(2,3,4) by simp_all
  from fill_split_stepped [OF sq1 assms(2,3,4), where F = F and keep = True and g = g]
  obtain c1' where
    c1: "fill_split F True g i j k c1 = Inr c1'"
      "stepped m c1 c1' i j (parents g (syms c1 i k) (syms c1 k j))"
    by blast
  from fill_split_stepped [OF sq2 assms(2,3,4), where F = F and keep = False and g = g]
  obtain c2' where
    c2: "fill_split F False g i j k c2 = Inr c2'"
      "stepped m c2 c2' i j (parents g (syms c2 i k) (syms c2 k j))"
    by blast
  have par: "parents g (syms c1 i k) (syms c1 k j) = parents g (syms c2 i k) (syms c2 k j)"
    using eq [OF im km] eq [OF km assms(4)] by simp
  have "syms c1' a b = syms c2' a b" if "a < m" "b < m" for a b
  proof (cases "(a, b) = (i, j)")
    case True
    then show ?thesis using c1(2) c2(2) par eq [OF im assms(4)] by (simp add: stepped_def)
  next
    case False
    from stepped_other [OF c1(2) that False] stepped_other [OF c2(2) that False] eq [OF that]
    show ?thesis by (simp add: syms_def)
  qed
  then have "sym_equiv m c1' c2'"
    using c1(2) c2(2) by (simp add: sym_equiv_def stepped_def)
  then show ?thesis using c1(1) c2(1) by auto
qed

lemma fill_span_sim:
  assumes "sym_equiv m (c1 :: 'f PChart) c2" and "i + len < m"
  shows "\<exists>c1' c2'. fill_span F True g len i c1 = Inr c1'
           \<and> fill_span F False g len i c2 = Inr c2' \<and> sym_equiv m c1' c2'"
  unfolding fill_span_def Let_def
proof (rule foldE_sim [where R = "sym_equiv m"])
  show "sym_equiv m c1 c2" by (rule assms(1))
next
  fix k and t1 t2 :: "'f PChart"
  assume "k \<in> set [i + 1..<i + len]" and "sym_equiv m t1 t2"
  then show "\<exists>t1' t2'. fill_split F True g i (i + len) k t1 = Inr t1'
      \<and> fill_split F False g i (i + len) k t2 = Inr t2' \<and> sym_equiv m t1' t2'"
    using assms(2) by (intro fill_split_sim) simp_all
qed

lemma fill_length_sim:
  assumes "sym_equiv (n + 1) (c1 :: 'f PChart) c2" and "len \<le> n"
  shows "\<exists>c1' c2'. fill_length F True g n len c1 = Inr c1'
           \<and> fill_length F False g n len c2 = Inr c2' \<and> sym_equiv (n + 1) c1' c2'"
  unfolding fill_length_def
proof (rule foldE_sim [where R = "sym_equiv (n + 1)"])
  show "sym_equiv (n + 1) c1 c2" by (rule assms(1))
next
  fix i and t1 t2 :: "'f PChart"
  assume "i \<in> set [0..<n - len + 1]" and "sym_equiv (n + 1) t1 t2"
  then show "\<exists>t1' t2'. fill_span F True g len i t1 = Inr t1'
      \<and> fill_span F False g len i t2 = Inr t2' \<and> sym_equiv (n + 1) t1' t2'"
    using assms(2) by (intro fill_span_sim) auto
qed

lemma fill_lengths_sim:
  assumes "sym_equiv (n + 1) (c1 :: 'f PChart) c2"
  shows "\<exists>c1' c2'. foldE (fill_length F True g n) [2..<n + 1] c1 = Inr c1'
           \<and> foldE (fill_length F False g n) [2..<n + 1] c2 = Inr c2'
           \<and> sym_equiv (n + 1) c1' c2'"
proof (rule foldE_sim [where R = "sym_equiv (n + 1)"])
  show "sym_equiv (n + 1) c1 c2" by (rule assms(1))
next
  fix len and t1 t2 :: "'f PChart"
  assume "len \<in> set [2..<n + 1]" and "sym_equiv (n + 1) t1 t2"
  then show "\<exists>t1' t2'. fill_length F True g n len t1 = Inr t1'
      \<and> fill_length F False g n len t2 = Inr t2' \<and> sym_equiv (n + 1) t1' t2'"
    by (intro fill_length_sim) auto
qed

subsection \<open>The base case\<close>

lemma fill_base_cell_ok:
  assumes "square c m" and "0 < j" and "j < m" and "j \<le> length string"
  shows "\<exists>c'. fill_base_cell F g string j c = Inr c' \<and> square c' m"
proof -
  let ?i = "j - 1"
  have ij: "?i < j" and im: "?i < m" using assms(2,3) by simp_all
  have "?i < length string" using assms(2,4) by simp
  then have w: "py_index string (int ?i) = Inr (string ! ?i)"
    by (rule py_index_nat)
  let ?f = "\<lambda>(nt, lp) c. cell_update c (int ?i, int j)
      (entry_set_add (PCKYChartEntry nt lp [PCKYChartEntry (string ! ?i) (float_zero F) []]))"
  have "\<exists>c'. foldE ?f prs c = Inr c' \<and> square c' m" if "square c m" for prs c
    using that
  proof (induction prs arbitrary: c)
    case Nil
    then show ?case by simp
  next
    case (Cons pr prs)
    obtain nt lp where pr: "pr = (nt, lp)" by (cases pr)
    let ?e = "PCKYChartEntry nt lp [PCKYChartEntry (string ! ?i) (float_zero F) []]"
    have step: "?f pr c = Inr (upd c ?i j (entry_set_add ?e))"
      using cell_update_nat [OF Cons.prems(1) ij assms(3)] by (simp add: pr)
    from Cons.IH [OF square_upd [OF Cons.prems(1)]] step
    show ?case by simp
  qed
  moreover have "fill_base_cell F g string j c = foldE ?f (reduce g [string ! ?i]) c"
    by (simp only: fill_base_cell_def Let_def w sum.case)
  ultimately show ?thesis using assms(1) by metis
qed

lemma square_init: "square (CKYChart_init (int n)) (n + 1)"
  by (simp add: square_def CKYChart_init_def nat_add_distrib)

lemma fill_base_ok:
  "\<exists>c'. foldE (fill_base_cell F g string) [1..<length string + 1]
           (CKYChart_init (int (length string))) = Inr c'
         \<and> square c' (length string + 1)"
proof -
  let ?m = "length string + 1"
  have "\<exists>c'. foldE (fill_base_cell F g string) js c = Inr c' \<and> square c' ?m"
    if "square c ?m" "\<forall>j \<in> set js. 0 < j \<and> j \<le> length string" for js c
    using that
  proof (induction js arbitrary: c)
    case Nil
    then show ?case by simp
  next
    case (Cons j js)
    from fill_base_cell_ok [OF Cons.prems(1), of j string F g] Cons.prems(2)
    obtain c1 where c1: "fill_base_cell F g string j c = Inr c1" "square c1 ?m"
      by auto
    from Cons.IH [OF c1(2)] Cons.prems(2) c1(1) show ?case by simp
  qed
  moreover have "\<forall>j \<in> set [1..<length string + 1]. 0 < j \<and> j \<le> length string"
    by auto
  ultimately show ?thesis using square_init by blast
qed

lemma fill_charts_equiv:
  "\<exists>c1 c2. PCKYParser_fill_chart F g string True = Inr c1
         \<and> PCKYParser_fill_chart F g string False = Inr c2
         \<and> sym_equiv (length string + 1) c1 c2"
proof -
  from fill_base_ok [of F g string] obtain c where
    c: "foldE (fill_base_cell F g string) [1..<length string + 1]
          (CKYChart_init (int (length string))) = Inr c"
      "square c (length string + 1)"
    by blast
  have "sym_equiv (length string + 1) c c" using c(2) by (simp add: sym_equiv_def)
  from fill_lengths_sim [OF this, of F g] c(1) show ?thesis
    by (simp add: PCKYParser_fill_chart_def Let_def)
qed

subsection \<open>The two modes of the probabilistic parser\<close>

lemma pcky_recognize_empty: "PCKYParser_recognize F g [] = Inl lower_triangle_error"
  by (simp add: PCKYParser_recognize_def PCKYParser_fill_chart_def CKYChart_getitem_def
      CKYChart_validate_index_def lower_triangle_error_def Let_def split: sum.splits)

lemma pcky_parse_empty: "PCKYParser_parse F g [] = Inl lower_triangle_error"
  by (simp add: PCKYParser_parse_def PCKYParser_fill_chart_def CKYChart_getitem_def
      CKYChart_validate_index_def lower_triangle_error_def Let_def split: sum.splits)

lemma pcky_modes_agree:
  assumes "string \<noteq> []"
  shows "\<exists>x parses. PCKYParser_recognize F g string = Inr x
           \<and> PCKYParser_parse F g string = Inr parses
           \<and> (parses = [] \<longrightarrow> x = float_neg_inf F)
           \<and> (parses \<noteq> [] \<longrightarrow> (\<exists>lps. lps \<noteq> [] \<and> x = scipy_logsumexp F lps))"
proof -
  let ?n = "length string"
  let ?S = "start_variable g"
  from fill_charts_equiv [of F g string] obtain c1 c2 where
    c: "PCKYParser_fill_chart F g string True = Inr c1"
      "PCKYParser_fill_chart F g string False = Inr c2" "sym_equiv (?n + 1) c1 c2"
    by blast
  then have sq1: "square c1 (?n + 1)" and sq2: "square c2 (?n + 1)"
    and eq: "syms c1 0 ?n = syms c2 0 ?n"
    by (auto simp: sym_equiv_def)
  have pos: "0 < ?n" using assms by simp
  have g1: "CKYChart_getitem c1 (0, int ?n) = Inr (cells c1 ! 0 ! ?n)"
    using getitem_nat [OF sq1 pos] by simp
  have g2: "CKYChart_getitem c2 (0, int ?n) = Inr (cells c2 ! 0 ! ?n)"
    using getitem_nat [OF sq2 pos] by simp
  let ?lps = "map entry_logprob (filter (\<lambda>entry. entry_symbol entry = ?S) (cells c2 ! 0 ! ?n))"
  let ?parses = "map (\<lambda>entry. (build_tree entry, entry_logprob entry))
      (filter (\<lambda>entry. entry_symbol entry = ?S) (cells c1 ! 0 ! ?n))"
  have rec: "PCKYParser_recognize F g string
      = Inr (if ?lps \<noteq> [] then scipy_logsumexp F ?lps else float_neg_inf F)"
    using c(2) g2 by (simp add: PCKYParser_recognize_def Let_def)
  have par: "PCKYParser_parse F g string = Inr ?parses"
    using c(1) g1 by (simp add: PCKYParser_parse_def)
  have "?parses \<noteq> [] \<longleftrightarrow> ?S \<in> syms c1 0 ?n"
    by (force simp: syms_def filter_empty_conv)
  moreover have "?lps \<noteq> [] \<longleftrightarrow> ?S \<in> syms c2 0 ?n"
    by (force simp: syms_def filter_empty_conv)
  ultimately have same: "?parses \<noteq> [] \<longleftrightarrow> ?lps \<noteq> []" using eq by simp
  show ?thesis
  proof (cases "?lps = []")
    case True
    then have "?parses = []" using same by blast
    then show ?thesis using rec par True by simp
  next
    case False
    then have "?parses \<noteq> []" using same by blast
    moreover have "\<exists>lps. lps \<noteq> [] \<and> scipy_logsumexp F ?lps = scipy_logsumexp F lps"
      using False by blast
    ultimately show ?thesis using rec par False by simp
  qed
qed

subsection \<open>The two modes of the Earley parser\<close>

lemma collect_parses_result:
  assumes "collect_parses construct_fn entries acc = Some (Inr parses)"
  shows "parses \<noteq> [] \<longleftrightarrow> entries \<noteq> [] \<or> acc \<noteq> []"
  using assms
proof (induction entries arbitrary: acc)
  case Nil
  then show ?case by auto
next
  case (Cons entry entries)
  from Cons.prems obtain t where t: "construct_fn entry = Some (Inr t)"
    and rest: "collect_parses construct_fn entries (set_add t acc) = Some (Inr parses)"
    by (auto split: option.splits sum.splits)
  have "set_add t acc \<noteq> []" by (auto simp: set_add_def)
  with Cons.IH [OF rest] show ?case by simp
qed

lemma earley_modes_agree:
  assumes "\<And>chart. fill string = Some (Inr chart)
             \<Longrightarrow> length (positions chart) = length string + 1
                 \<and> chart_start_variable chart = start_variable g"
  shows "(EarleyParser_recognize fill g string = Some (Inr False)
           \<longrightarrow> EarleyParser_parse fill construct_fn string = Some (Inr []))
       \<and> (EarleyParser_parse fill construct_fn string = Some (Inr trees)
           \<longrightarrow> EarleyParser_recognize fill g string = Some (Inr (trees \<noteq> [])))"
proof (cases "fill string")
  case None
  then show ?thesis by (simp add: EarleyParser_recognize_def EarleyParser_parse_def)
next
  case (Some r)
  show ?thesis
  proof (cases r)
    case (Inl e)
    then show ?thesis using Some by (simp add: EarleyParser_recognize_def EarleyParser_parse_def)
  next
    case (Inr chart)
    let ?n = "length string"
    let ?es = "positions chart ! ?n"
    from assms Some Inr have len: "length (positions chart) = ?n + 1"
      and sv: "chart_start_variable chart = start_variable g"
      by auto
    have last: "py_index (positions chart) (- 1) = Inr ?es"
      using len by (simp add: py_index_def py_norm_def)
    let ?P = "\<lambda>entry. left_side (rule (dotted_rule entry)) = chart_start_variable chart
                \<and> (int (fst (span' (dotted_rule entry))), int (snd (span' (dotted_rule entry))))
                     = (0, EarleyChart_input_size chart)
                \<and> DottedRule_is_complete (dotted_rule entry)"
    have P: "?P entry \<longleftrightarrow> is_parse_of (start_variable g) ?n entry" for entry
      using len sv
      by (cases "span' (dotted_rule entry)")
        (auto simp: is_parse_of_def EarleyChart_input_size_def)
    have rec: "EarleyParser_recognize fill g string
        = Some (Inr (list_ex (is_parse_of (start_variable g) ?n) ?es))"
      using Some Inr last by (simp add: EarleyParser_recognize_def EarleyChart_getitem_def)
    have par: "EarleyParser_parse fill construct_fn string
        = collect_parses (construct_fn chart) (filter ?P ?es) []"
      using Some Inr last by (simp add: EarleyParser_parse_def EarleyChart_parses_def)
    have "filter ?P ?es = filter (is_parse_of (start_variable g) ?n) ?es"
      by (rule filter_cong [OF refl]) (rule P)
    then have found: "filter ?P ?es \<noteq> [] \<longleftrightarrow> list_ex (is_parse_of (start_variable g) ?n) ?es"
      by (simp only: filter_empty_conv list_ex_iff) blast
    show ?thesis
    proof (intro conjI impI)
      assume "EarleyParser_recognize fill g string = Some (Inr False)"
      then have "filter ?P ?es = []" using rec found by simp
      then show "EarleyParser_parse fill construct_fn string = Some (Inr [])"
        using par by simp
    next
      assume "EarleyParser_parse fill construct_fn string = Some (Inr trees)"
      then have "collect_parses (construct_fn chart) (filter ?P ?es) [] = Some (Inr trees)"
        using par by simp
      from collect_parses_result [OF this] found rec
      show "EarleyParser_recognize fill g string = Some (Inr (trees \<noteq> []))" by simp
    qed
  qed
qed

text \<open>
  C1, as the code has it. The plain CKY parser's \<^verbatim>\<open>_fill_chart\<close> raises
  \<^verbatim>\<open>NotImplementedError\<close> and the Earley parser of the source has no \<^verbatim>\<open>_fill_chart\<close>, so
  with each of them both modes raise, on every grammar and input: recognize does not
  return true and parse returns no set of trees. With any filler put into the Earley
  parser that returns charts of \<open>n + 1\<close> positions made for the grammar's start symbol,
  and any reconstruction: when recognize returns false, parse returns the empty set, and
  when parse returns a set, recognize returns whether it is non-empty. The probabilistic
  CKY parser raises \<^verbatim>\<open>ValueError\<close> in both modes on the empty input; on any other input
  both modes return, \<^verbatim>\<open>_recognize\<close> returns \<open>-inf\<close> when \<^verbatim>\<open>_parse\<close> returns the empty
  list, and when \<^verbatim>\<open>_parse\<close> returns a non-empty list \<^verbatim>\<open>_recognize\<close> returns the
  \<^verbatim>\<open>logsumexp\<close> of a non-empty list of log-probabilities, whatever number that is.
\<close>

theorem recognize_parse_agreement:
  assumes "\<forall>chart. fill string = Some (Inr chart)
             \<longrightarrow> length (positions chart) = length string + 1
                 \<and> chart_start_variable chart = start_variable g"
  shows "CKYParser_recognize CKYParser_fill_chart cg cstring = Inl NotImplementedError
       \<and> CKYParser_parse CKYParser_fill_chart fuel cstring = Some (Inl NotImplementedError)
       \<and> EarleyParser_recognize EarleyParser_missing_fill_chart g string
           = Some (Inl (AttributeError (no_attribute ''EarleyParser'' ''_fill_chart'')))
       \<and> EarleyParser_parse EarleyParser_missing_fill_chart construct_fn string
           = Some (Inl (AttributeError (no_attribute ''EarleyParser'' ''_fill_chart'')))
       \<and> (EarleyParser_recognize fill g string = Some (Inr False)
           \<longrightarrow> EarleyParser_parse fill construct_fn string = Some (Inr []))
       \<and> (EarleyParser_parse fill construct_fn string = Some (Inr trees)
           \<longrightarrow> EarleyParser_recognize fill g string = Some (Inr (trees \<noteq> [])))
       \<and> PCKYParser_recognize F pg [] = Inl lower_triangle_error
       \<and> PCKYParser_parse F pg [] = Inl lower_triangle_error
       \<and> (pstring \<noteq> []
           \<longrightarrow> (\<exists>x parses. PCKYParser_recognize F pg pstring = Inr x
                  \<and> PCKYParser_parse F pg pstring = Inr parses
                  \<and> (parses = [] \<longrightarrow> x = float_neg_inf F)
                  \<and> (parses \<noteq> [] \<longrightarrow> (\<exists>lps. lps \<noteq> [] \<and> x = scipy_logsumexp F lps))))"
proof -
  have made: "length (positions chart) = length string + 1
      \<and> chart_start_variable chart = start_variable g"
    if "fill string = Some (Inr chart)" for chart
    using assms that by blast
  have "CKYParser_recognize CKYParser_fill_chart cg cstring = Inl NotImplementedError"
    by (simp add: CKYParser_recognize_def CKYParser_fill_chart_def)
  moreover
  have "CKYParser_parse CKYParser_fill_chart fuel cstring = Some (Inl NotImplementedError)"
    by (simp add: CKYParser_parse_def CKYParser_fill_chart_def)
  moreover
  have "EarleyParser_recognize EarleyParser_missing_fill_chart g string
      = Some (Inl (AttributeError (no_attribute ''EarleyParser'' ''_fill_chart'')))"
    by (simp add: EarleyParser_recognize_def EarleyParser_missing_fill_chart_def)
  moreover
  have "EarleyParser_parse EarleyParser_missing_fill_chart construct_fn string
      = Some (Inl (AttributeError (no_attribute ''EarleyParser'' ''_fill_chart'')))"
    by (simp add: EarleyParser_parse_def EarleyParser_missing_fill_chart_def)
  moreover
  note earley_modes_agree
      [OF made, where construct_fn = construct_fn and trees = trees, THEN conjunct1]
    earley_modes_agree
      [OF made, where construct_fn = construct_fn and trees = trees, THEN conjunct2]
    pcky_recognize_empty [of F pg] pcky_parse_empty [of F pg]
  moreover
  have "pstring \<noteq> []
      \<longrightarrow> (\<exists>x parses. PCKYParser_recognize F pg pstring = Inr x
             \<and> PCKYParser_parse F pg pstring = Inr parses
             \<and> (parses = [] \<longrightarrow> x = float_neg_inf F)
             \<and> (parses \<noteq> [] \<longrightarrow> (\<exists>lps. lps \<noteq> [] \<and> x = scipy_logsumexp F lps)))"
    using pcky_modes_agree [of pstring F pg] by blast
  ultimately show ?thesis by (intro conjI)
qed

lemma one_rule_parse:
  "PCKYParser_parse exact one_rule_pcfg [''a''] = Inr [(Tree ''S'' [Tree ''a'' []], Fin 0)]"
  by (simp add: PCKYParser_parse_def pcky_eval one_rule_pcfg_def)

lemma one_rule_parse_other:
  "PCKYParser_parse exact one_rule_pcfg [''b''] = Inr []"
  by (simp add: PCKYParser_parse_def pcky_eval one_rule_pcfg_def)

lemma unhappiness_rejects:
  "EarleyParser_recognize (EarleyParser_fill_chart unhappiness_grammar) unhappiness_grammar
     [''ness''] = Some (Inr False)"
  by code_simp

text \<open>
  C1 at concrete inputs. The Earley parser with the filler and the reconstruction of the
  pseudocode, on the walkthrough's grammar: \<^verbatim>\<open>["un", "happy", "ness"]\<close> has a parse and is
  recognized, \<^verbatim>\<open>["ness"]\<close> is not recognized and has no parse. The probabilistic parser on
  the grammar \<^verbatim>\<open>S -> a\<close> of probability one: \<^verbatim>\<open>["a"]\<close> has a parse and its log-probability
  is a \<^verbatim>\<open>logsumexp\<close>, \<^verbatim>\<open>["b"]\<close> has none and its log-probability is \<open>-inf\<close>.
\<close>

theorem recognize_parse_agreement_witness:
  "EarleyParser_recognize (EarleyParser_fill_chart unhappiness_grammar) unhappiness_grammar
       [''un'', ''happy'', ''ness''] = Some (Inr True)
   \<and> EarleyParser_parse (EarleyParser_fill_chart unhappiness_grammar) (construct_parses 5)
       [''ness''] = Some (Inr [])
   \<and> (\<exists>lps. lps \<noteq> []
         \<and> PCKYParser_recognize exact one_rule_pcfg [''a''] = Inr (logsumexp lps))
   \<and> PCKYParser_recognize exact one_rule_pcfg [''b''] = Inr NegInf"
proof -
  let ?fill = "EarleyParser_fill_chart unhappiness_grammar"
  let ?tree = "Tree ''Word''
      [Tree ''N''
         [Tree ''Adj'' [Tree ''Prefix'' [Tree ''un'' []], Tree ''Adj'' [Tree ''happy'' []]],
          Tree ''Suffix'' [Tree ''ness'' []]]]"
  let ?s1 = "[''un'', ''happy'', ''ness'']"
  let ?s2 = "[''ness'']"
  have h1: "\<forall>chart. ?fill ?s1 = Some (Inr chart)
      \<longrightarrow> length (positions chart) = length ?s1 + 1
          \<and> chart_start_variable chart = start_variable unhappiness_grammar"
    using fill_chart_returns [of unhappiness_grammar ?s1] by (auto simp: chart_within_def)
  have h2: "\<forall>chart. ?fill ?s2 = Some (Inr chart)
      \<longrightarrow> length (positions chart) = length ?s2 + 1
          \<and> chart_start_variable chart = start_variable unhappiness_grammar"
    using fill_chart_returns [of unhappiness_grammar ?s2] by (auto simp: chart_within_def)
  note t1 = recognize_parse_agreement
    [where fill = ?fill and g = unhappiness_grammar and string = ?s1
      and construct_fn = "construct_parses 5" and trees = "[?tree]"
      and F = exact and pg = one_rule_pcfg and pstring = "[''a'']", OF h1]
  note t2 = recognize_parse_agreement
    [where fill = ?fill and g = unhappiness_grammar and string = ?s2
      and construct_fn = "construct_parses 5"
      and F = exact and pg = one_rule_pcfg and pstring = "[''b'']", OF h2]
  have parse: "EarleyParser_parse ?fill (construct_parses 5) ?s1 = Some (Inr [?tree])"
    using unhappiness_parse [of 0] by simp
  have 1: "EarleyParser_recognize ?fill unhappiness_grammar ?s1 = Some (Inr True)"
    using t1 [THEN conjunct2, THEN conjunct2, THEN conjunct2, THEN conjunct2, THEN conjunct2,
        THEN conjunct1, THEN mp, OF parse]
    by simp
  have 2: "EarleyParser_parse ?fill (construct_parses 5) ?s2 = Some (Inr [])"
    using t2 [THEN conjunct2, THEN conjunct2, THEN conjunct2, THEN conjunct2, THEN conjunct1,
        THEN mp, OF unhappiness_rejects] .
  have ne: "[''a''] \<noteq> ([] :: string list)" "[''b''] \<noteq> ([] :: string list)" by simp_all
  from t1 [THEN conjunct2, THEN conjunct2, THEN conjunct2, THEN conjunct2, THEN conjunct2,
      THEN conjunct2, THEN conjunct2, THEN conjunct2, THEN mp, OF ne(1)] one_rule_parse
  have 3: "\<exists>lps. lps \<noteq> []
      \<and> PCKYParser_recognize exact one_rule_pcfg [''a''] = Inr (logsumexp lps)"
    by (auto simp: exact_def)
  from t2 [THEN conjunct2, THEN conjunct2, THEN conjunct2, THEN conjunct2, THEN conjunct2,
      THEN conjunct2, THEN conjunct2, THEN conjunct2, THEN mp, OF ne(2)] one_rule_parse_other
  have 4: "PCKYParser_recognize exact one_rule_pcfg [''b''] = Inr NegInf"
    by (auto simp: exact_def)
  from 1 2 3 4 show ?thesis by (intro conjI)
qed

text \<open>
  C1 as stated fails for the probabilistic parser. With the rules \<^verbatim>\<open>S -> a [0.0]\<close> and
  \<^verbatim>\<open>S -> b [-inf]\<close> the input \<^verbatim>\<open>["b"]\<close> has the parse \<^verbatim>\<open>S(b)\<close>, so \<^verbatim>\<open>_parse\<close> returns a
  non-empty list, and \<^verbatim>\<open>_recognize\<close> returns \<open>-inf\<close>.
\<close>

theorem zero_probability_disagreement:
  "PCKYParser_recognize exact zero_probability_pcfg [''b''] = Inr NegInf
   \<and> PCKYParser_parse exact zero_probability_pcfg [''b'']
       = Inr [(Tree ''S'' [Tree ''b'' []], NegInf)]"
  by (simp add: PCKYParser_recognize_def PCKYParser_parse_def pcky_eval
      zero_probability_pcfg_def logsumexp_def)

section \<open>Chart monotonicity\<close>

subsection \<open>The Earley operations\<close>

lemma chart_add_grows:
  assumes "chart_add c k e = Inr c'"
  shows "chart_grows c c'"
proof -
  from assms obtain s where get: "py_index (positions c) (int k) = Inr s"
    and c': "c' = c\<lparr>positions := (positions c)[k := set_add e s]\<rparr>"
    by (auto simp: chart_add_def EarleyChart_getitem_def split: sum.splits)
  from get have k: "k < length (positions c)" and s: "s = positions c ! k"
    by (auto simp: py_index_def py_norm_def split: if_splits)
  show ?thesis
    unfolding c' chart_grows_def using k s
    by (auto simp: nth_list_update set_add_def)
qed

lemma predict_grows:
  assumes "EarleyParser_predict g chart entry position = Inr chart'"
  shows "chart_grows chart chart'"
proof -
  from assms obtain a where
    f: "foldE (\<lambda>r c. chart_add c position (predicted r position)) (rules_for g a) chart
          = Inr chart'"
    by (auto simp: EarleyParser_predict_def split: sum.splits)
  show ?thesis
    by (rule foldE_invariant [OF f, where P = "chart_grows chart"])
      (auto dest!: chart_add_grows intro: chart_grows_trans)
qed

lemma scan_grows:
  assumes "EarleyParser_scan string chart entry position = Inr chart'"
  shows "chart_grows chart chart'"
  using assms
  by (auto simp: EarleyParser_scan_def Let_def split: sum.splits if_splits
      dest!: chart_add_grows intro: chart_grows_trans)

lemma complete_step_grows:
  "complete_step entry position prev c = Inr c' \<Longrightarrow> chart_grows c c'"
  by (cases "span' (dotted_rule entry)")
    (auto simp: complete_step_def split: sum.splits if_splits bool.splits
      dest!: chart_add_grows)

lemma complete_grows:
  assumes "EarleyParser_complete chart entry position = Inr chart'"
  shows "chart_grows chart chart'"
proof -
  from assms obtain prevs where
    f: "foldE (complete_step entry position) prevs chart = Inr chart'"
    by (auto simp: EarleyParser_complete_def split: sum.splits)
  show ?thesis
    by (rule foldE_invariant [OF f, where P = "chart_grows chart"])
      (auto dest!: complete_step_grows intro: chart_grows_trans)
qed

lemma completed_is_new:
  assumes "EarleyChartEntry_complete prev entry e = Inr completed"
  shows "dot (dotted_rule completed) = dot (dotted_rule prev) + 1 \<and> completed \<noteq> prev"
proof -
  from assms have "dot (dotted_rule completed) = dot (dotted_rule prev) + 1"
    by (auto simp: EarleyChartEntry_complete_def DottedRule_complete_def Let_def
        split: sum.splits)
  then show ?thesis by auto
qed

subsection \<open>The probabilistic CKY filler\<close>

lemma cells_grow_refl [simp]: "cells_grow c c"
  by (simp add: cells_grow_def)

lemma square_length: "square c m \<Longrightarrow> length (cells c) = m"
  by (simp add: square_def)

lemma cells_grow_trans:
  assumes "cells_grow a b" and "cells_grow b c" and "square a m" and "square b m"
  shows "cells_grow a c"
  using assms unfolding cells_grow_def
  by (auto simp: square_length square_row) (meson subsetD)

lemma symbols_grow_refl [simp]: "symbols_grow c c"
  by (simp add: symbols_grow_def)

lemma symbols_grow_trans:
  assumes "symbols_grow a b" and "symbols_grow b c" and "square a m" and "square b m"
  shows "symbols_grow a c"
  using assms unfolding symbols_grow_def
  by (auto simp: square_length square_row) (meson image_eqI subsetD)

lemma upd_grows:
  assumes "square c m" and "i < m" and "j < m" and "set (cells c ! i ! j) \<subseteq> set (f (cells c ! i ! j))"
  shows "cells_grow c (upd c i j f)"
  unfolding cells_grow_def
  using assms square_upd [OF assms(1), of i j f]
  by (auto simp: square_length square_row cells_upd)

lemma upd_symbols_grow:
  assumes "square c m" and "i < m" and "j < m"
    and "entry_symbol ` set (cells c ! i ! j) \<subseteq> entry_symbol ` set (f (cells c ! i ! j))"
  shows "symbols_grow c (upd c i j f)"
  unfolding symbols_grow_def
  using assms square_upd [OF assms(1), of i j f]
  by (auto simp: square_length square_row cells_upd)

lemma set_add_superset: "set cell \<subseteq> set (entry_set_add e cell)"
  by (auto simp: set_entry_set_add)

lemma combine_grows:
  assumes "combine F keep (i, j) l r pr c = Inr c'" and "square c m" and "i < j" and "j < m"
  shows "square c' m \<and> (keep \<longrightarrow> cells_grow c c') \<and> symbols_grow c c'"
proof -
  have im: "i < m" using assms(3,4) by simp
  from assms(1) combine_nat [OF assms(2,3,4)] have c': "c' = upd c i j (combined F keep l r pr)"
    by simp
  have "set (cells c ! i ! j) \<subseteq> set (combined F True l r pr (cells c ! i ! j))"
    by (simp add: combined_def Let_def set_add_superset)
  then have "keep \<longrightarrow> cells_grow c c'"
    unfolding c' using assms(2) im assms(4) by (auto intro: upd_grows)
  moreover have "symbols_grow c c'"
    unfolding c' using assms(2) im assms(4)
    by (intro upd_symbols_grow) (auto simp: symbols_combined)
  ultimately show ?thesis using square_upd [OF assms(2)] c' by simp
qed

lemma fill_split_grows:
  assumes "fill_split F keep g i j k c = Inr c'" and "square c m" and "i < k" and "k < j"
    and "j < m"
  shows "square c' m \<and> (keep \<longrightarrow> cells_grow c c') \<and> symbols_grow c c'"
proof -
  have km: "k < m" and ij: "i < j" using assms(3,4,5) by simp_all
  let ?P = "\<lambda>t. square t m \<and> (keep \<longrightarrow> cells_grow c t) \<and> symbols_grow c t"
  have step: "?P w'" if "?P w" "combine F keep (i, j) l r pr w = Inr w'" for w w' l r pr
  proof -
    from combine_grows [OF that(2) _ ij assms(5)] that(1)
    have "square w' m" "keep \<longrightarrow> cells_grow w w'" "symbols_grow w w'" by auto
    with that(1) assms(2) show ?thesis
      by (auto intro: cells_grow_trans symbols_grow_trans)
  qed
  from assms(1) getitem_nat [OF assms(2,3) km]
  have f: "foldE (\<lambda>left_entry c.
              case CKYChart_getitem c (int k, int j) of
                Inl e \<Rightarrow> Inl e
              | Inr rights \<Rightarrow>
                  foldE (\<lambda>right_entry.
                      foldE (combine F keep (i, j) left_entry right_entry)
                        (reduce g [entry_symbol left_entry, entry_symbol right_entry]))
                    rights c) (cells c ! i ! k) c = Inr c'"
    by (simp add: fill_split_def)
  show ?thesis
  proof (rule foldE_invariant [OF f, where P = ?P])
    show "?P c" using assms(2) by simp
  next
    fix l t t'
    assume t: "?P t"
      and st: "(case CKYChart_getitem t (int k, int j) of
                Inl e \<Rightarrow> Inl e
              | Inr rights \<Rightarrow>
                  foldE (\<lambda>right_entry.
                      foldE (combine F keep (i, j) l right_entry)
                        (reduce g [entry_symbol l, entry_symbol right_entry]))
                    rights t) = Inr t'"
    from st getitem_nat [of t m k j] t assms(4,5)
    have f2: "foldE (\<lambda>right_entry.
                      foldE (combine F keep (i, j) l right_entry)
                        (reduce g [entry_symbol l, entry_symbol right_entry]))
                    (cells t ! k ! j) t = Inr t'"
      by simp
    show "?P t'"
    proof (rule foldE_invariant [OF f2, where P = ?P])
      show "?P t" by (rule t)
    next
      fix r u u'
      assume u: "?P u"
        and st2: "foldE (combine F keep (i, j) l r) (reduce g [entry_symbol l, entry_symbol r]) u
                    = Inr u'"
      show "?P u'"
        by (rule foldE_invariant [OF st2, where P = ?P]) (use u step in blast)+
    qed
  qed
qed

lemma fill_base_cell_grows:
  assumes "fill_base_cell F g string j c = Inr c'" and "square c m" and "0 < j" and "j < m"
    and "j \<le> length string"
  shows "cells_grow c c'"
proof -
  let ?i = "j - 1"
  have ij: "?i < j" and im: "?i < m" using assms(3,4) by simp_all
  have "?i < length string" using assms(3,5) by simp
  then have w: "py_index string (int ?i) = Inr (string ! ?i)" by (rule py_index_nat)
  let ?f = "\<lambda>(nt, lp) c. cell_update c (int ?i, int j)
      (entry_set_add (PCKYChartEntry nt lp [PCKYChartEntry (string ! ?i) (float_zero F) []]))"
  let ?P = "\<lambda>t. square t m \<and> cells_grow c t"
  have f: "foldE ?f (reduce g [string ! ?i]) c = Inr c'"
    using assms(1) by (simp only: fill_base_cell_def Let_def w sum.case)
  have "?P c'"
  proof (rule foldE_invariant [OF f, where P = ?P])
    show "?P c" using assms(2) by simp
  next
    fix pr t t'
    assume t: "?P t" and st: "?f pr t = Inr t'"
    obtain nt lp where pr: "pr = (nt, lp)" by (cases pr)
    let ?e = "PCKYChartEntry nt lp [PCKYChartEntry (string ! ?i) (float_zero F) []]"
    from st cell_update_nat [of t m ?i j] t ij assms(4)
    have t': "t' = upd t ?i j (entry_set_add ?e)" by (simp add: pr)
    have "cells_grow t t'"
      unfolding t' using t im assms(4) by (intro upd_grows) (auto simp: set_add_superset)
    with t assms(2) show "?P t'"
      unfolding t' by (auto intro: cells_grow_trans square_upd)
  qed
  then show ?thesis by simp
qed

lemma logsumexp_pair: "logsumexp [Fin a, Fin b] = Fin (ln (exp a + exp b))"
proof -
  have "0 < exp a + exp b" by (simp add: add_pos_pos)
  then show ?thesis by (simp add: logsumexp_def)
qed

lemma ln_twice_exp: "ln (2 * exp x) \<noteq> (x :: real)"
proof -
  have "ln (2 * exp x) = ln 2 + x" by (simp add: ln_mult)
  moreover have "0 < ln (2 :: real)" by simp
  ultimately show ?thesis by linarith
qed

lemmas amb_eval =
  pcky_eval ambiguous_pcfg_def ambiguous_chart_def leaf_S_def first_S_def pair_S_def
  summed_S_def upt_rec numeral_nat logsumexp_pair

lemma amb_base:
  "foldE (fill_base_cell exact ambiguous_pcfg [''a'', ''a'', ''a'']) [1..<4] (CKYChart_init 3)
     = Inr (ambiguous_chart [] [] [])"
  by (simp add: amb_eval)

lemma amb_len2:
  "fill_length exact False ambiguous_pcfg 3 2 (ambiguous_chart [] [] [])
     = Inr (ambiguous_chart [pair_S] [pair_S] [])"
  by (simp add: amb_eval)

lemma amb_first:
  "fill_split exact False ambiguous_pcfg 0 3 1 (ambiguous_chart [pair_S] [pair_S] [])
     = Inr (ambiguous_chart [pair_S] [pair_S] [first_S])"
  by (simp add: amb_eval)

lemma amb_second:
  "fill_split exact False ambiguous_pcfg 0 3 2 (ambiguous_chart [pair_S] [pair_S] [first_S])
     = Inr (ambiguous_chart [pair_S] [pair_S] [summed_S])"
  by (simp add: amb_eval)

lemma amb_fill:
  "PCKYParser_fill_chart exact ambiguous_pcfg [''a'', ''a'', ''a''] False
     = Inr (ambiguous_chart [pair_S] [pair_S] [summed_S])"
  by (simp add: amb_eval)

text \<open>
  C2, as the code has it. Each Earley operation that returns (predict, scan, complete)
  leaves every entry of every position of the chart in place, and completing a dotted rule
  gives a new entry, with the dot one further, that differs from the completed one. The
  base step of the probabilistic CKY filler, and its recursive step when backtraces are
  kept, leave every entry of every cell in place. In aggregate mode
  (\<open>keep_backtraces = False\<close>) the recursive step keeps only the symbols of every cell:
  an entry may be replaced by one of the same symbol.
\<close>

theorem chart_filling_monotone:
  "(EarleyParser_predict g chart entry position = Inr chart' \<longrightarrow> chart_grows chart chart')
   \<and> (EarleyParser_scan string chart entry position = Inr chart' \<longrightarrow> chart_grows chart chart')
   \<and> (EarleyParser_complete chart entry position = Inr chart' \<longrightarrow> chart_grows chart chart')
   \<and> (EarleyChartEntry_complete prev entry e = Inr completed \<longrightarrow>
        dot (dotted_rule completed) = dot (dotted_rule prev) + 1 \<and> completed \<noteq> prev)
   \<and> (square c m \<and> 0 < j \<and> j < m \<and> j \<le> length tokens
        \<and> fill_base_cell F pg tokens j c = Inr c' \<longrightarrow> cells_grow c c')
   \<and> (square c m \<and> i < k \<and> k < j \<and> j < m \<and> fill_split F True pg i j k c = Inr c'
        \<longrightarrow> cells_grow c c')
   \<and> (square c m \<and> i < k \<and> k < j \<and> j < m \<and> fill_split F False pg i j k c = Inr c'
        \<longrightarrow> symbols_grow c c')"
proof (intro conjI impI)
  assume "EarleyParser_predict g chart entry position = Inr chart'"
  then show "chart_grows chart chart'" by (rule predict_grows)
next
  assume "EarleyParser_scan string chart entry position = Inr chart'"
  then show "chart_grows chart chart'" by (rule scan_grows)
next
  assume "EarleyParser_complete chart entry position = Inr chart'"
  then show "chart_grows chart chart'" by (rule complete_grows)
next
  assume "EarleyChartEntry_complete prev entry e = Inr completed"
  then show "dot (dotted_rule completed) = dot (dotted_rule prev) + 1"
    using completed_is_new by blast
next
  assume "EarleyChartEntry_complete prev entry e = Inr completed"
  then show "completed \<noteq> prev" using completed_is_new by blast
next
  assume "square c m \<and> 0 < j \<and> j < m \<and> j \<le> length tokens
    \<and> fill_base_cell F pg tokens j c = Inr c'"
  then show "cells_grow c c'" using fill_base_cell_grows by blast
next
  assume "square c m \<and> i < k \<and> k < j \<and> j < m \<and> fill_split F True pg i j k c = Inr c'"
  then have "fill_split F True pg i j k c = Inr c'" "square c m" "i < k" "k < j" "j < m"
    by simp_all
  from fill_split_grows [OF this] show "cells_grow c c'" by simp
next
  assume "square c m \<and> i < k \<and> k < j \<and> j < m \<and> fill_split F False pg i j k c = Inr c'"
  then have "fill_split F False pg i j k c = Inr c'" "square c m" "i < k" "k < j" "j < m"
    by simp_all
  from fill_split_grows [OF this] show "symbols_grow c c'" by simp
qed

lemma example_predict:
  "EarleyParser_predict unhappiness_grammar
     (earley_chart [mk_entry ''Word'' [''N''] (0, 0) 0 []] [])
     (mk_entry ''Word'' [''N''] (0, 0) 0 []) 0
   = Inr (earley_chart [mk_entry ''Word'' [''N''] (0, 0) 0 [],
                         mk_entry ''N'' [''Adj'', ''Suffix''] (0, 0) 0 []] [])"
  by code_simp

lemma example_scan:
  "EarleyParser_scan [''un'', ''happy'', ''ness'']
     (earley_chart [mk_entry ''Prefix'' [''un''] (0, 0) 0 []] [])
     (mk_entry ''Prefix'' [''un''] (0, 0) 0 []) 0
   = Inr (earley_chart [mk_entry ''Prefix'' [''un''] (0, 0) 0 []]
                        [mk_entry ''un'' [''un''] (0, 1) 1 [],
                         mk_entry ''Prefix'' [''un''] (0, 1) 1 [(''un'', 0)]])"
  by code_simp

lemma example_complete:
  "EarleyParser_complete
     (earley_chart [mk_entry ''Adj'' [''Prefix'', ''Adj''] (0, 0) 0 []]
                   [mk_entry ''Prefix'' [''un''] (0, 1) 1 [(''un'', 0)]])
     (mk_entry ''Prefix'' [''un''] (0, 1) 1 [(''un'', 0)]) 1
   = Inr (earley_chart [mk_entry ''Adj'' [''Prefix'', ''Adj''] (0, 0) 0 []]
                        [mk_entry ''Prefix'' [''un''] (0, 1) 1 [(''un'', 0)],
                         mk_entry ''Adj'' [''Prefix'', ''Adj''] (0, 1) 1 [(''Prefix'', 0)]])"
  by code_simp

lemma example_entry_complete:
  "EarleyChartEntry_complete (mk_entry ''Adj'' [''Prefix'', ''Adj''] (0, 0) 0 [])
     (mk_entry ''Prefix'' [''un''] (0, 1) 1 [(''un'', 0)]) 1
   = Inr (mk_entry ''Adj'' [''Prefix'', ''Adj''] (0, 1) 1 [(''Prefix'', 0)])"
  by code_simp

lemma example_base:
  "fill_base_cell exact ambiguous_pcfg [''a'', ''a'', ''a''] 1 (CKYChart_init 3)
   = Inr \<lparr>input_size = 3,
          cells = [[[], [leaf_S], [], []], [[], [], [], []], [[], [], [], []],
                   [[], [], [], []]]\<rparr>"
  by (simp add: amb_eval)

lemma example_split_backtraces:
  "fill_split exact True ambiguous_pcfg 0 2 1 (ambiguous_chart [] [] [])
   = Inr (ambiguous_chart [PCKYChartEntry ''S'' (Fin (3 * ln (1 / 2))) [leaf_S, leaf_S]] [] [])"
  by (simp add: amb_eval)

lemma square_ambiguous_chart: "square (ambiguous_chart a b c) 4"
  by (simp add: square_def ambiguous_chart_def nth_Cons' less_Suc_eq numeral_nat)

text \<open>
  C2 at concrete inputs: one prediction, one scan and one completion on charts of the
  grammar of \<open>unhappiness\<close>, and the base step and two recursive steps of the probabilistic
  filler on the grammar \<open>S \<rightarrow> S S | a\<close> with the input \<open>a a a\<close>.
\<close>

theorem chart_filling_monotone_witness:
  "chart_grows (earley_chart [mk_entry ''Word'' [''N''] (0, 0) 0 []] [])
     (earley_chart [mk_entry ''Word'' [''N''] (0, 0) 0 [],
                    mk_entry ''N'' [''Adj'', ''Suffix''] (0, 0) 0 []] [])
   \<and> chart_grows (earley_chart [mk_entry ''Prefix'' [''un''] (0, 0) 0 []] [])
     (earley_chart [mk_entry ''Prefix'' [''un''] (0, 0) 0 []]
                   [mk_entry ''un'' [''un''] (0, 1) 1 [],
                    mk_entry ''Prefix'' [''un''] (0, 1) 1 [(''un'', 0)]])
   \<and> chart_grows
     (earley_chart [mk_entry ''Adj'' [''Prefix'', ''Adj''] (0, 0) 0 []]
                   [mk_entry ''Prefix'' [''un''] (0, 1) 1 [(''un'', 0)]])
     (earley_chart [mk_entry ''Adj'' [''Prefix'', ''Adj''] (0, 0) 0 []]
                   [mk_entry ''Prefix'' [''un''] (0, 1) 1 [(''un'', 0)],
                    mk_entry ''Adj'' [''Prefix'', ''Adj''] (0, 1) 1 [(''Prefix'', 0)]])
   \<and> mk_entry ''Adj'' [''Prefix'', ''Adj''] (0, 1) 1 [(''Prefix'', 0)]
       \<noteq> mk_entry ''Adj'' [''Prefix'', ''Adj''] (0, 0) 0 []
   \<and> cells_grow (CKYChart_init 3)
       \<lparr>input_size = 3,
        cells = [[[], [leaf_S], [], []], [[], [], [], []], [[], [], [], []],
                 [[], [], [], []]]\<rparr>
   \<and> cells_grow (ambiguous_chart [] [] [])
       (ambiguous_chart [PCKYChartEntry ''S'' (Fin (3 * ln (1 / 2))) [leaf_S, leaf_S]] [] [])
   \<and> symbols_grow (ambiguous_chart [pair_S] [pair_S] [first_S])
       (ambiguous_chart [pair_S] [pair_S] [summed_S])"
proof -
  have sq: "square (CKYChart_init 3) 4"
    using square_init [of 3] by simp
  have b: "(0::nat) < 1" "(1::nat) < 4" "(1::nat) \<le> length [''a'', ''a'', ''a'']"
    and s: "(0::nat) < 1" "(1::nat) < 2" "(2::nat) < 4"
    and t: "(0::nat) < 2" "(2::nat) < 3" "(3::nat) < 4"
    by simp_all
  note w = chart_filling_monotone
  show ?thesis
    using w [THEN conjunct1, THEN mp, OF example_predict]
      w [THEN conjunct2, THEN conjunct1, THEN mp, OF example_scan]
      w [THEN conjunct2, THEN conjunct2, THEN conjunct1, THEN mp, OF example_complete]
      w [THEN conjunct2, THEN conjunct2, THEN conjunct2, THEN conjunct1, THEN mp,
        OF example_entry_complete, THEN conjunct2]
      w [THEN conjunct2, THEN conjunct2, THEN conjunct2, THEN conjunct2, THEN conjunct1,
        THEN mp, OF conjI [OF sq conjI [OF b(1) conjI [OF b(2) conjI [OF b(3) example_base]]]]]
      w [THEN conjunct2, THEN conjunct2, THEN conjunct2, THEN conjunct2, THEN conjunct2,
        THEN conjunct1, THEN mp,
        OF conjI [OF square_ambiguous_chart
          conjI [OF s(1) conjI [OF s(2) conjI [OF s(3) example_split_backtraces]]]]]
      w [THEN conjunct2, THEN conjunct2, THEN conjunct2, THEN conjunct2, THEN conjunct2,
        THEN conjunct2, THEN mp,
        OF conjI [OF square_ambiguous_chart
          conjI [OF t(1) conjI [OF t(2) conjI [OF t(3) amb_second]]]]]
    by (intro conjI)
qed

text \<open>
  C2 as the specification words it fails in aggregate mode. On \<open>S \<rightarrow> S S | a\<close>, both rules
  of probability one half, and the input \<open>a a a\<close>, the first split of the cell \<open>(0, 3)\<close>
  inserts an entry for \<open>S\<close>; the second split removes that entry and inserts one with the
  sum of the two probabilities: the first entry is in the cell after the first split and
  is no longer there in the chart the filler returns.
\<close>

theorem aggregate_mode_replaces_entry:
  "foldE (fill_base_cell exact ambiguous_pcfg [''a'', ''a'', ''a'']) [1..<4] (CKYChart_init 3)
     = Inr (ambiguous_chart [] [] [])
   \<and> fill_length exact False ambiguous_pcfg 3 2 (ambiguous_chart [] [] [])
     = Inr (ambiguous_chart [pair_S] [pair_S] [])
   \<and> fill_split exact False ambiguous_pcfg 0 3 1 (ambiguous_chart [pair_S] [pair_S] [])
     = Inr (ambiguous_chart [pair_S] [pair_S] [first_S])
   \<and> fill_split exact False ambiguous_pcfg 0 3 2 (ambiguous_chart [pair_S] [pair_S] [first_S])
     = Inr (ambiguous_chart [pair_S] [pair_S] [summed_S])
   \<and> PCKYParser_fill_chart exact ambiguous_pcfg [''a'', ''a'', ''a''] False
     = Inr (ambiguous_chart [pair_S] [pair_S] [summed_S])
   \<and> first_S \<in> set (cells (ambiguous_chart [pair_S] [pair_S] [first_S]) ! 0 ! 3)
   \<and> first_S \<notin> set (cells (ambiguous_chart [pair_S] [pair_S] [summed_S]) ! 0 ! 3)"
proof -
  have "first_S \<in> set (cells (ambiguous_chart [pair_S] [pair_S] [first_S]) ! 0 ! 3)"
    by (simp add: ambiguous_chart_def)
  moreover have "first_S \<notin> set (cells (ambiguous_chart [pair_S] [pair_S] [summed_S]) ! 0 ! 3)"
    using ln_twice_exp [of "5 * ln (1 / 2)"]
    by (simp add: ambiguous_chart_def first_S_def summed_S_def)
  ultimately show ?thesis
    using amb_base amb_len2 amb_first amb_second amb_fill by (intro conjI) 
qed

section \<open>The empty input (C9)\<close>

lemma cky_recognize_empty:
  "CKYParser_recognize fill g []
     = (case fill [] of Inl e \<Rightarrow> Inl e | Inr c \<Rightarrow> Inl lower_triangle_error)"
  by (simp add: CKYParser_recognize_def CKYChart_getitem_def CKYChart_validate_index_def
      lower_triangle_error_def split: sum.splits)

text \<open>
  C9 fails on the code. On the empty token sequence the recognizers read
  \<^verbatim>\<open>chart[0, len(string)]\<close>, that is \<^verbatim>\<open>chart[0, 0]\<close>, a cell on the diagonal, which the
  chart refuses: the probabilistic CKY recognizer raises \<^verbatim>\<open>ValueError\<close> for every grammar,
  whatever the float operations compute, where its docstring promises the log-probability
  \<open>-inf\<close> of a string that is not in the language. The plain CKY recognizer returns no
  boolean on the empty input whatever filler it is given, and with the filler of the
  source it raises \<^verbatim>\<open>NotImplementedError\<close>; the Earley recognizer of the source, which has
  no filler, raises \<^verbatim>\<open>AttributeError\<close>.
\<close>

theorem empty_input_raises:
  "PCKYParser_recognize F pg []
     = Inl (ValueError ''cannot index into the lower triangle of the chart'')
   \<and> CKYParser_recognize fill g [] \<noteq> Inr answer
   \<and> CKYParser_recognize CKYParser_fill_chart g [] = Inl NotImplementedError
   \<and> EarleyParser_recognize EarleyParser_missing_fill_chart eg []
       = Some (Inl (AttributeError (no_attribute ''EarleyParser'' ''_fill_chart'')))"
proof (intro conjI)
  show "PCKYParser_recognize F pg []
      = Inl (ValueError ''cannot index into the lower triangle of the chart'')"
    by (simp add: PCKYParser_recognize_def PCKYParser_fill_chart_def CKYChart_getitem_def
        CKYChart_validate_index_def Let_def split: sum.splits)
next
  show "CKYParser_recognize fill g [] \<noteq> Inr answer"
    by (simp add: cky_recognize_empty split: sum.splits)
next
  show "CKYParser_recognize CKYParser_fill_chart g [] = Inl NotImplementedError"
    by (simp add: CKYParser_recognize_def CKYParser_fill_chart_def)
next
  show "EarleyParser_recognize EarleyParser_missing_fill_chart eg []
      = Some (Inl (AttributeError (no_attribute ''EarleyParser'' ''_fill_chart'')))"
    by (simp add: EarleyParser_recognize_def EarleyParser_missing_fill_chart_def)
qed

end
